theory Spec2Isabelle
  imports Complex_Main
begin

section \<open>Conventions of the embedding\<close>

text \<open>
  The library's scalar types \<^verbatim>\<open>rl::FLOAT\<close>, \<^verbatim>\<open>rl::INT\<close> and \<^verbatim>\<open>rl::UINT\<close> are
  declared in \<^verbatim>\<open>declares.h\<close>, which is not among the sources read here.
  \<^item> A value of \<^verbatim>\<open>rl::FLOAT\<close> is a \<^typ>\<open>real\<close>; the non-finite values are outside the
    model. In \<^verbatim>\<open>StateActionTransition\<close> every arithmetic operation on \<^verbatim>\<open>rl::FLOAT\<close> returns
    \<open>fl\<close> of the exact result, where the rounding \<open>fl\<close> of the type is a parameter:
    \<open>\<lambda>x. x\<close> is exact arithmetic, \<open>binary64\<close> and \<open>binary32\<close> are the IEEE formats of
    \<^verbatim>\<open>double\<close> and \<^verbatim>\<open>float\<close>. The arithmetic of the tile coder is exact. A division whose
    divisor is zero is written out where the code converts its result to an integer.
  \<^item> A value of \<^verbatim>\<open>rl::INT\<close>, \<^verbatim>\<open>rl::UINT\<close> or \<^verbatim>\<open>size_t\<close> is a \<^typ>\<open>nat\<close> below two to the
    width of its type, for \<^verbatim>\<open>rl::INT\<close> the bits of the two's complement number; every
    operation wraps around at that width. The widths are parameters, the record
    \<open>platform\<close>: \<open>intBits\<close> for \<^verbatim>\<open>rl::INT\<close> and \<^verbatim>\<open>rl::UINT\<close>, \<open>sizeBits\<close> for \<^verbatim>\<open>size_t\<close>.
    The overflow of a signed multiplication, undefined in the language, wraps as well.
  \<^item> A state (\<^verbatim>\<open>spState<S>\<close>) is a value of a linearly ordered type; the ordered
    containers \<^verbatim>\<open>spStateXMap<S, FLOAT>\<close> are association lists that hold each key once,
    new keys entering at their place in the order.
  \<^item> Every \<^verbatim>\<open>throw\<close> and every failing \<^verbatim>\<open>assert\<close> is a value \<open>Inl e\<close> of the result.
  \<^item> Random draws are arguments of the functions that make them.
\<close>

datatype error =
    StateActionTransitionException string
  | AssertionFailed
  | OutOfRange
  | UndefinedConversion
  | InvalidConfig

definition bind_result :: "error + 'a \<Rightarrow> ('a \<Rightarrow> error + 'b) \<Rightarrow> error + 'b" where
  "bind_result r f = (case r of Inl e \<Rightarrow> Inl e | Inr x \<Rightarrow> f x)"

section \<open>Machine integers\<close>

record platform =
  intBits :: nat
  sizeBits :: nat

definition wrap :: "nat \<Rightarrow> nat \<Rightarrow> nat" where
  "wrap bits n = n mod 2 ^ bits"

text \<open>The number that the bits \<open>v\<close> stand for in a signed type of the given width.\<close>

definition toSigned :: "nat \<Rightarrow> nat \<Rightarrow> int" where
  "toSigned bits v = (if v < 2 ^ (bits - 1) then int v else int v - 2 ^ bits)"

section \<open>The ordered map of the standard library\<close>

definition map_keys :: "('k \<times> 'v) list \<Rightarrow> 'k set" where
  "map_keys xs = set (map fst xs)"

text \<open>\<^verbatim>\<open>std::map::insert\<close>: a key that is present keeps its entry.\<close>

definition map_insert :: "'k::linorder \<Rightarrow> 'v \<Rightarrow> ('k \<times> 'v) list \<Rightarrow> ('k \<times> 'v) list" where
  "map_insert k v xs = (if k \<in> map_keys xs then xs else insort_key fst (k, v) xs)"

text \<open>Reading \<^verbatim>\<open>m[k]\<close>: the stored value, and the value-initialised \<open>0\<close> for a new key.\<close>

definition map_index :: "('k \<times> real) list \<Rightarrow> 'k \<Rightarrow> real" where
  "map_index xs k = (case map_of xs k of None \<Rightarrow> 0 | Some v \<Rightarrow> v)"

text \<open>Writing \<^verbatim>\<open>m[k] = v\<close>.\<close>

definition map_assign :: "'k::linorder \<Rightarrow> 'v \<Rightarrow> ('k \<times> 'v) list \<Rightarrow> ('k \<times> 'v) list" where
  "map_assign k v xs =
     (if k \<in> map_keys xs then map (\<lambda>(k', v'). if k' = k then (k', v) else (k', v')) xs
      else insort_key fst (k, v) xs)"

text \<open>\<^verbatim>\<open>std::map::at\<close> throws \<^verbatim>\<open>std::out_of_range\<close> for a missing key.\<close>

definition map_at :: "('k \<times> 'v) list \<Rightarrow> 'k \<Rightarrow> error + 'v" where
  "map_at xs k = (case map_of xs k of None \<Rightarrow> Inl OutOfRange | Some v \<Rightarrow> Inr v)"

section \<open>The arithmetic of rl::FLOAT\<close>

text \<open>
  Rounding to the nearest value with a significand of \<open>p\<close> bits, ties to the even
  significand; the exponent is not bounded (no overflow, no subnormal numbers).
\<close>

definition roundTiesToEven :: "real \<Rightarrow> int" where
  "roundTiesToEven q =
     (let n = \<lfloor>q\<rfloor>; r = q - of_int n
      in if r < 1 / 2 then n else if 1 / 2 < r then n + 1 else if even n then n else n + 1)"

definition roundToPrecision :: "nat \<Rightarrow> real \<Rightarrow> real" where
  "roundToPrecision p x =
     (if x = 0 then 0
      else let e = \<lfloor>log 2 \<bar>x\<bar>\<rfloor> - (int p - 1)
           in of_int (roundTiesToEven (x / 2 powi e)) * 2 powi e)"

definition binary64 :: "real \<Rightarrow> real" where
  "binary64 = roundToPrecision 53"

definition binary32 :: "real \<Rightarrow> real" where
  "binary32 = roundToPrecision 24"

text \<open>
  \<^verbatim>\<open>std::uniform_real_distribution(a, b)\<close> is specified to yield a value of \<open>[a, b)\<close>; the
  standard libraries compute it as \<open>c * (b - a) + a\<close> from the canonical draw \<open>c\<close> of
  \<open>[0, 1)\<close>, in the arithmetic of the result type.
\<close>

definition uniform_real_distribution :: "(real \<Rightarrow> real) \<Rightarrow> real \<Rightarrow> real \<Rightarrow> real \<Rightarrow> real" where
  "uniform_real_distribution fl a b c = fl (fl (c * fl (b - a)) + a)"

section \<open>StateActionTransition\<close>

record 's StateActionTransition =
  stateActionTransitionFrequency :: "('s \<times> real) list"
  stateActionTransitionReward :: "('s \<times> real) list"
  greedy :: real
  stepSize :: real

definition StateActionTransition_init :: "real \<Rightarrow> real \<Rightarrow> error + 's StateActionTransition" where
  "StateActionTransition_init greedy0 stepSize0 =
     Inr \<lparr>stateActionTransitionFrequency = [], stateActionTransitionReward = [],
          greedy = greedy0, stepSize = stepSize0\<rparr>"

text \<open>
  The three assignments of \<^verbatim>\<open>update\<close>, each operation rounded: to the frequency of
  another state, to the frequency of \<open>nextState\<close>, and to its reward.
\<close>

definition lowerStep :: "(real \<Rightarrow> real) \<Rightarrow> real \<Rightarrow> real \<Rightarrow> real" where
  "lowerStep fl stepSize0 f = fl (f + fl (stepSize0 * fl (0 - f)))"

definition raiseStep :: "(real \<Rightarrow> real) \<Rightarrow> real \<Rightarrow> real \<Rightarrow> real" where
  "raiseStep fl stepSize0 f = fl (f + fl (stepSize0 * fl (1 - f)))"

definition rewardStep :: "(real \<Rightarrow> real) \<Rightarrow> real \<Rightarrow> real \<Rightarrow> real" where
  "rewardStep fl reward r = fl (r + fl (1 * fl (reward - r)))"

text \<open>
  The first loop of \<^verbatim>\<open>update\<close> visits every entry of the frequency map and rewrites the
  entry it stands on unless its key is \<open>nextState\<close>.
\<close>

definition lowerOthers ::
  "(real \<Rightarrow> real) \<Rightarrow> real \<Rightarrow> 's \<Rightarrow> ('s \<times> real) list \<Rightarrow> ('s \<times> real) list" where
  "lowerOthers fl stepSize0 nextState freq =
     map (\<lambda>(state, f). if state \<noteq> nextState then (state, lowerStep fl stepSize0 f) else (state, f)) freq"

definition updateFrequency ::
  "(real \<Rightarrow> real) \<Rightarrow> real \<Rightarrow> 's::linorder \<Rightarrow> ('s \<times> real) list \<Rightarrow> ('s \<times> real) list" where
  "updateFrequency fl stepSize0 nextState freq =
     (let freq0 = map_insert nextState 0 freq;
          freq1 = lowerOthers fl stepSize0 nextState freq0
      in map_assign nextState (raiseStep fl stepSize0 (map_index freq1 nextState)) freq1)"

definition updateReward ::
  "(real \<Rightarrow> real) \<Rightarrow> 's::linorder \<Rightarrow> real \<Rightarrow> ('s \<times> real) list \<Rightarrow> ('s \<times> real) list" where
  "updateReward fl nextState reward rew =
     (let rew0 = map_insert nextState reward rew
      in map_assign nextState (rewardStep fl reward (map_index rew0 nextState)) rew0)"

text \<open>
  \<^verbatim>\<open>update\<close>: the statements on the frequency map and those on the reward map, then the
  closing \<^verbatim>\<open>assert\<close> on the two sizes.
\<close>

definition update ::
  "(real \<Rightarrow> real) \<Rightarrow> 's::linorder StateActionTransition \<Rightarrow> 's \<Rightarrow> real \<Rightarrow>
     error + 's StateActionTransition" where
  "update fl m nextState reward =
     (let freq2 = updateFrequency fl (stepSize m) nextState (stateActionTransitionFrequency m);
          rew1 = updateReward fl nextState reward (stateActionTransitionReward m)
      in if length freq2 = length rew1
         then Inr (m\<lparr>stateActionTransitionFrequency := freq2, stateActionTransitionReward := rew1\<rparr>)
         else Inl AssertionFailed)"

definition findState :: "'s StateActionTransition \<Rightarrow> 's \<Rightarrow> bool" where
  "findState m state = (map_of (stateActionTransitionFrequency m) state \<noteq> None)"

definition getReward :: "'s StateActionTransition \<Rightarrow> 's \<Rightarrow> error + real" where
  "getReward m state =
     (if findState m state = False then Inl (StateActionTransitionException ''state not yet added.'')
      else map_at (stateActionTransitionReward m) state)"

text \<open>The weighted walk of \<^verbatim>\<open>getNextState\<close>; falling off its end is \<^verbatim>\<open>assert(false)\<close>.\<close>

fun weightedWalk :: "(real \<Rightarrow> real) \<Rightarrow> ('s \<times> real) list \<Rightarrow> real \<Rightarrow> error + 's" where
  "weightedWalk fl [] randomNumberWeightedSelection = Inl AssertionFailed"
| "weightedWalk fl ((state, currentFreq) # rest) randomNumberWeightedSelection =
     (if currentFreq > randomNumberWeightedSelection then Inr state
      else weightedWalk fl rest (fl (randomNumberWeightedSelection - currentFreq)))"

fun sumFrequencies :: "(real \<Rightarrow> real) \<Rightarrow> ('s \<times> real) list \<Rightarrow> real \<Rightarrow> real" where
  "sumFrequencies fl [] freqValSum = freqValSum"
| "sumFrequencies fl ((state, f) # rest) freqValSum = sumFrequencies fl rest (fl (freqValSum + f))"

text \<open>
  \<open>c1\<close> and \<open>c2\<close> are the canonical draws behind the two real distributions, \<open>d\<close> is the
  value \<^verbatim>\<open>_randomDevice()\<close> returns.
\<close>

definition getNextState ::
  "(real \<Rightarrow> real) \<Rightarrow> 's StateActionTransition \<Rightarrow> real \<Rightarrow> nat \<Rightarrow> real \<Rightarrow> error + 's" where
  "getNextState fl m c1 d c2 =
     (let freq = stateActionTransitionFrequency m in
      if length freq = 0 then Inl (StateActionTransitionException ''nextStates are empty.'')
      else
        let randomNumberRandomSelection = uniform_real_distribution fl 0 1 c1 in
        if randomNumberRandomSelection > greedy m then Inr (fst (freq ! (d mod length freq)))
        else
          let freqValSum = sumFrequencies fl freq 0;
              randomNumberWeightedSelection = uniform_real_distribution fl 0 freqValSum c2
          in weightedWalk fl freq randomNumberWeightedSelection)"

definition getSize :: "'s StateActionTransition \<Rightarrow> nat" where
  "getSize m = length (stateActionTransitionFrequency m)"

definition setStepSize :: "'s StateActionTransition \<Rightarrow> real \<Rightarrow> 's StateActionTransition" where
  "setStepSize m stepSize0 = m\<lparr>stepSize := stepSize0\<rparr>"

definition getStepSize :: "'s StateActionTransition \<Rightarrow> real" where
  "getStepSize m = stepSize m"

definition setGreedy :: "'s StateActionTransition \<Rightarrow> real \<Rightarrow> 's StateActionTransition" where
  "setGreedy m greedy0 = m\<lparr>greedy := greedy0\<rparr>"

definition getGreedy :: "'s StateActionTransition \<Rightarrow> real" where
  "getGreedy m = greedy m"

subsection \<open>Sequences of calls\<close>

datatype 's operation = Update 's real | SetStepSize real | SetGreedy real

fun apply_operation ::
  "(real \<Rightarrow> real) \<Rightarrow> 's::linorder StateActionTransition \<Rightarrow> 's operation \<Rightarrow>
     error + 's StateActionTransition" where
  "apply_operation fl m (Update nextState reward) = update fl m nextState reward"
| "apply_operation fl m (SetStepSize stepSize0) = Inr (setStepSize m stepSize0)"
| "apply_operation fl m (SetGreedy greedy0) = Inr (setGreedy m greedy0)"

fun run ::
  "(real \<Rightarrow> real) \<Rightarrow> 's::linorder StateActionTransition \<Rightarrow> 's operation list \<Rightarrow>
     error + 's StateActionTransition" where
  "run fl m [] = Inr m"
| "run fl m (op # ops) = bind_result (apply_operation fl m op) (\<lambda>m'. run fl m' ops)"


text \<open>The class invariant: both maps hold each key once and hold the same keys.\<close>

definition classInvariant :: "'s StateActionTransition \<Rightarrow> bool" where
  "classInvariant m =
     (distinct (map fst (stateActionTransitionFrequency m)) \<and>
      distinct (map fst (stateActionTransitionReward m)) \<and>
      map_keys (stateActionTransitionFrequency m) = map_keys (stateActionTransitionReward m))"

section \<open>DimensionInfo\<close>

record DimensionInfo =
  rangePair :: "real \<times> real"
  gridCountIdeal :: nat
  generalizationScale :: real

text \<open>The two constructors; neither has a statement that throws.\<close>

definition DimensionInfo_init3 :: "real \<Rightarrow> real \<Rightarrow> nat \<Rightarrow> error + DimensionInfo" where
  "DimensionInfo_init3 lowerRange higherRange gridCount =
     Inr \<lparr>rangePair = (lowerRange, higherRange), gridCountIdeal = gridCount,
          generalizationScale = 1\<rparr>"

definition DimensionInfo_init :: "real \<Rightarrow> real \<Rightarrow> nat \<Rightarrow> real \<Rightarrow> error + DimensionInfo" where
  "DimensionInfo_init lowerRange higherRange gridCount generalizationScale0 =
     Inr \<lparr>rangePair = (lowerRange, higherRange), gridCountIdeal = gridCount,
          generalizationScale = generalizationScale0\<rparr>"

definition GetRangeDifference :: "DimensionInfo \<Rightarrow> real" where
  "GetRangeDifference di = \<bar>fst (rangePair di) - snd (rangePair di)\<bar>"

text \<open>
  \<^verbatim>\<open>GetOffsets\<close> divides by the ideal grid count; for a grid count of \<open>0\<close> the code yields
  a non-finite value, which the model does not represent.
\<close>

definition GetOffsets :: "DimensionInfo \<Rightarrow> real" where
  "GetOffsets di = GetRangeDifference di / real (gridCountIdeal di)"

definition GetGridCountReal :: "platform \<Rightarrow> DimensionInfo \<Rightarrow> nat" where
  "GetGridCountReal pf di = wrap (intBits pf) (gridCountIdeal di + 1)"

definition SetGridCountIdeal :: "DimensionInfo \<Rightarrow> nat \<Rightarrow> DimensionInfo" where
  "SetGridCountIdeal di gridCountIdeal0 = di\<lparr>gridCountIdeal := gridCountIdeal0\<rparr>"

definition GetGridCountIdeal :: "DimensionInfo \<Rightarrow> nat" where
  "GetGridCountIdeal di = gridCountIdeal di"

definition setUpperBound :: "DimensionInfo \<Rightarrow> real \<Rightarrow> DimensionInfo" where
  "setUpperBound di upperBound = di\<lparr>rangePair := (fst (rangePair di), upperBound)\<rparr>"

definition setLowerBound :: "DimensionInfo \<Rightarrow> real \<Rightarrow> DimensionInfo" where
  "setLowerBound di lowerBound = di\<lparr>rangePair := (lowerBound, snd (rangePair di))\<rparr>"

definition getUpperBound :: "DimensionInfo \<Rightarrow> real" where
  "getUpperBound di = snd (rangePair di)"

definition getLowerBound :: "DimensionInfo \<Rightarrow> real" where
  "getLowerBound di = fst (rangePair di)"

definition getGeneralizationScale :: "DimensionInfo \<Rightarrow> real" where
  "getGeneralizationScale di = generalizationScale di"

definition setGeneralizationScale :: "DimensionInfo \<Rightarrow> real \<Rightarrow> DimensionInfo" where
  "setGeneralizationScale di generalization = di\<lparr>generalizationScale := generalization\<rparr>"

section \<open>TileCode and TileCodeCorrect\<close>

text \<open>
  The template parameter \<^verbatim>\<open>NUM_TILINGS\<close> is a field of the record; the parameter \<^verbatim>\<open>D\<close> is
  the length of the array of \<^verbatim>\<open>DimensionInfo\<close>.
\<close>

record TileCode =
  NUM_TILINGS :: nat
  dimensionalInfos :: "DimensionInfo list"
  sizeCache :: nat
  w :: "real list"
  randomOffsets :: "real list list"

text \<open>
  Modelled from the spec: \<^verbatim>\<open>getDimension()\<close> belongs to \<^verbatim>\<open>CourseCode<D>\<close>, which is not among
  the sources; it reports \<^verbatim>\<open>D\<close>.
\<close>

definition getDimension :: "TileCode \<Rightarrow> nat" where
  "getDimension tc = length (dimensionalInfos tc)"

text \<open>\<^verbatim>\<open>std::vector::at\<close> and \<^verbatim>\<open>std::array::at\<close> throw \<^verbatim>\<open>std::out_of_range\<close>.\<close>

definition vector_at :: "'a list \<Rightarrow> nat \<Rightarrow> error + 'a" where
  "vector_at xs i = (if i < length xs then Inr (xs ! i) else Inl OutOfRange)"

text \<open>
  The conversion of a \<^verbatim>\<open>FLOAT\<close> to \<^verbatim>\<open>size_t\<close> truncates towards zero; it is undefined
  when the truncated value is negative or too large for \<^verbatim>\<open>size_t\<close>.
\<close>

definition float_to_size :: "platform \<Rightarrow> real \<Rightarrow> error + nat" where
  "float_to_size pf v =
     (if v \<le> - 1 \<or> 2 ^ sizeBits pf \<le> v then Inl UndefinedConversion else Inr (nat \<lfloor>v\<rfloor>))"

fun calculateSizeLoop :: "platform \<Rightarrow> DimensionInfo list \<Rightarrow> nat \<Rightarrow> nat" where
  "calculateSizeLoop pf [] size0 = size0"
| "calculateSizeLoop pf (di # dims) size0 =
     calculateSizeLoop pf dims (wrap (sizeBits pf) (size0 * GetGridCountReal pf di))"

definition calculateSize :: "platform \<Rightarrow> nat \<Rightarrow> DimensionInfo list \<Rightarrow> nat" where
  "calculateSize pf numTilings dims =
     wrap (sizeBits pf) (calculateSizeLoop pf dims 1 * numTilings)"

text \<open>
  The constructor with a size hint. \<open>draw i j\<close> is the canonical draw of \<open>[0, 1)\<close> behind
  the value \<^verbatim>\<open>distribution(_pseudoRNG)\<close> of tiling \<open>i\<close> and dimension \<open>j\<close>.
\<close>

definition TileCode_init_hint ::
  "nat \<Rightarrow> DimensionInfo list \<Rightarrow> nat \<Rightarrow> (nat \<Rightarrow> nat \<Rightarrow> real) \<Rightarrow> error + TileCode" where
  "TileCode_init_hint numTilings dims sizeHint draw =
     Inr \<lparr>NUM_TILINGS = numTilings, dimensionalInfos = dims, sizeCache = sizeHint,
          w = replicate sizeHint 0,
          randomOffsets =
            map (\<lambda>i. map (\<lambda>j. uniform_real_distribution (\<lambda>x. x) 0 1 (draw i j) * GetOffsets (dims ! j)
                                 * getGeneralizationScale (dims ! j))
                         [0..<length dims])
                [0..<numTilings]\<rparr>"

definition TileCode_init ::
  "platform \<Rightarrow> nat \<Rightarrow> DimensionInfo list \<Rightarrow> (nat \<Rightarrow> nat \<Rightarrow> real) \<Rightarrow> error + TileCode" where
  "TileCode_init pf numTilings dims draw =
     TileCode_init_hint numTilings dims (calculateSize pf numTilings dims) draw"

definition getNumTilings :: "TileCode \<Rightarrow> nat" where
  "getNumTilings tc = NUM_TILINGS tc"

definition TileCode_getSize :: "TileCode \<Rightarrow> nat" where
  "TileCode_getSize tc = sizeCache tc"

definition calculateSizeCache :: "platform \<Rightarrow> TileCode \<Rightarrow> nat" where
  "calculateSizeCache pf tc = calculateSize pf (NUM_TILINGS tc) (dimensionalInfos tc)"

definition paramToGridValue :: "platform \<Rightarrow> TileCode \<Rightarrow> real \<Rightarrow> nat \<Rightarrow> nat \<Rightarrow> error + nat" where
  "paramToGridValue pf tc param tilingIndex dimensionIndex =
     bind_result (vector_at (randomOffsets tc) tilingIndex) (\<lambda>offsetsOfTiling.
     bind_result (vector_at offsetsOfTiling dimensionIndex) (\<lambda>randomOffset.
     bind_result (vector_at (dimensionalInfos tc) dimensionIndex) (\<lambda>di.
       let dimGeneraliztionScale = getGeneralizationScale di;
           dimLowerBound = getLowerBound di;
           dimGridCountIdeal = GetGridCountIdeal di;
           dimRangeMagnitude = GetRangeDifference di
       in if dimRangeMagnitude = 0 then Inl UndefinedConversion
          else float_to_size pf
                 (((param + randomOffset * dimGeneraliztionScale - dimLowerBound)
                     * real dimGridCountIdeal) / dimRangeMagnitude))))"

text \<open>
  The inner loop of \<^verbatim>\<open>getFeatureVector\<close> over the dimensions \<open>j\<close>, with the grid value of
  dimension \<open>j\<close> (a \<^verbatim>\<open>size_t\<close>) given by \<open>grid j\<close>; it returns \<^verbatim>\<open>hashedIndex\<close> and \<^verbatim>\<open>mult\<close>,
  both \<^verbatim>\<open>rl::INT\<close>. Whatever the wider type of an operation is, the bits assigned to the
  \<^verbatim>\<open>rl::INT\<close> are those of the exact result modulo two to the width of \<^verbatim>\<open>rl::INT\<close>.
\<close>

fun hashedIndexLoop ::
  "platform \<Rightarrow> (nat \<Rightarrow> error + nat) \<Rightarrow> DimensionInfo list \<Rightarrow> nat \<Rightarrow> nat \<Rightarrow> nat \<Rightarrow>
     error + nat \<times> nat" where
  "hashedIndexLoop pf grid [] j hashedIndex mult = Inr (hashedIndex, mult)"
| "hashedIndexLoop pf grid (di # dims) j hashedIndex mult =
     bind_result (grid j) (\<lambda>gridValue.
       hashedIndexLoop pf grid dims (Suc j)
         (wrap (intBits pf) (hashedIndex + gridValue * mult))
         (wrap (intBits pf) (mult * GetGridCountReal pf di)))"

text \<open>The index of tiling \<open>i\<close> before the \<^verbatim>\<open>assert\<close>.\<close>

definition tilingHashedIndex ::
  "platform \<Rightarrow> (nat \<Rightarrow> error + nat) \<Rightarrow> DimensionInfo list \<Rightarrow> nat \<Rightarrow> error + nat" where
  "tilingHashedIndex pf grid dims i =
     bind_result (hashedIndexLoop pf grid dims 0 0 1) (\<lambda>(hashedIndex, mult).
       Inr (wrap (intBits pf) (hashedIndex + mult * i)))"

text \<open>
  The comparison \<^verbatim>\<open>hashedIndex <= _sizeCache\<close> of the \<^verbatim>\<open>assert\<close>: the signed
  \<^verbatim>\<open>hashedIndex\<close> is converted to \<^verbatim>\<open>size_t\<close> unless \<^verbatim>\<open>rl::INT\<close> is the wider type.
\<close>

definition withinSizeCache :: "platform \<Rightarrow> nat \<Rightarrow> nat \<Rightarrow> bool" where
  "withinSizeCache pf hashedIndex size0 =
     (if intBits pf \<le> sizeBits pf
      then nat (toSigned (intBits pf) hashedIndex mod 2 ^ sizeBits pf) \<le> size0
      else toSigned (intBits pf) hashedIndex \<le> int size0)"

text \<open>
  The outer loop over the tilings fills \<^verbatim>\<open>fv\<close> in order; an entry holds the bits of
  \<^verbatim>\<open>hashedIndex\<close>.
\<close>

fun tilingsLoop :: "(nat \<Rightarrow> error + nat) \<Rightarrow> nat list \<Rightarrow> error + nat list" where
  "tilingsLoop body [] = Inr []"
| "tilingsLoop body (i # rest) =
     bind_result (body i) (\<lambda>hashedIndex.
     bind_result (tilingsLoop body rest) (\<lambda>fv. Inr (hashedIndex # fv)))"

definition getFeatureVector :: "platform \<Rightarrow> TileCode \<Rightarrow> real list \<Rightarrow> error + nat list" where
  "getFeatureVector pf tc parameters =
     tilingsLoop
       (\<lambda>i. bind_result
               (tilingHashedIndex pf
                  (\<lambda>j. bind_result (vector_at parameters j) (\<lambda>p. paramToGridValue pf tc p i j))
                  (dimensionalInfos tc) i)
               (\<lambda>hashedIndex. if withinSizeCache pf hashedIndex (sizeCache tc) then Inr hashedIndex
                              else Inl AssertionFailed))
       [0..<NUM_TILINGS tc]"

definition getValueFromFeatureVector :: "TileCode \<Rightarrow> nat list \<Rightarrow> real" where
  "getValueFromFeatureVector tc fv = foldl (\<lambda>sum0 f. sum0 + w tc ! f) 0 fv"

text \<open>
  The number a tuple of grid values stands for in the mixed radix of the real grid counts:
  what the inner loop adds to \<^verbatim>\<open>hashedIndex\<close>, per unit of \<^verbatim>\<open>mult\<close>, while nothing wraps.
\<close>

fun mixedRadix :: "platform \<Rightarrow> DimensionInfo list \<Rightarrow> nat list \<Rightarrow> nat" where
  "mixedRadix pf (di # dims) (g # gs) = g + GetGridCountReal pf di * mixedRadix pf dims gs"
| "mixedRadix pf dims gs = 0"

fun withinGrid :: "platform \<Rightarrow> DimensionInfo list \<Rightarrow> nat list \<Rightarrow> bool" where
  "withinGrid pf [] [] = True"
| "withinGrid pf (di # dims) (g # gs) = (g < GetGridCountReal pf di \<and> withinGrid pf dims gs)"
| "withinGrid pf dims gs = False"

section \<open>Facts about the ordered map\<close>

lemma map_keys_insert: "map_keys (map_insert k v xs) = insert k (map_keys xs)"
  by (auto simp: map_insert_def map_keys_def set_insort_key)

lemma map_fst_insort_key: "map fst (insort_key fst (k, v) xs) = insort k (map fst xs)"
  by (induction xs) auto

lemma distinct_map_insert:
  "distinct (map fst xs) \<Longrightarrow> distinct (map fst (map_insert k v xs))"
  by (simp add: map_insert_def map_keys_def map_fst_insort_key distinct_insort)

lemma map_of_insort_key:
  "k \<notin> set (map fst xs) \<Longrightarrow>
     map_of (insort_key fst (k, v) xs) k' = (if k' = k then Some v else map_of xs k')"
  by (induction xs) auto

lemma map_of_map_insert:
  "map_of (map_insert k v xs) k' =
     (if k' = k \<and> k \<notin> map_keys xs then Some v else map_of xs k')"
  by (simp add: map_insert_def map_keys_def map_of_insort_key)

lemma map_assign_present:
  "k \<in> map_keys xs \<Longrightarrow>
     map_assign k v xs = map (\<lambda>(k', v'). if k' = k then (k', v) else (k', v')) xs"
  by (simp add: map_assign_def)

lemma map_fst_assign_present:
  "map fst (map (\<lambda>(k', v'). if k' = k then (k', v) else (k', v')) xs) = map fst xs"
  by (induction xs) auto

lemma map_of_assign_present:
  "map_of (map (\<lambda>(k', v'). if k' = k then (k', v) else (k', v')) xs) j =
     (if j = k \<and> k \<in> set (map fst xs) then Some v else map_of xs j)"
proof (induction xs arbitrary: j)
  case Nil
  show ?case by simp
next
  case (Cons x xs)
  obtain a b where x: "x = (a, b)" by (cases x)
  show ?case by (simp add: x Cons.IH)
qed

lemma map_fst_lowerOthers: "map fst (lowerOthers fl b s xs) = map fst xs"
  by (induction xs) (auto simp: lowerOthers_def)

lemma map_keys_lowerOthers: "map_keys (lowerOthers fl b s xs) = map_keys xs"
  by (simp add: map_keys_def map_fst_lowerOthers)

lemma lowerOthers_Cons:
  "lowerOthers fl b s ((a, c) # xs) =
     (if a \<noteq> s then (a, lowerStep fl b c) else (a, c)) # lowerOthers fl b s xs"
  by (simp add: lowerOthers_def)

lemma map_of_lowerOthers_other:
  "k \<noteq> s \<Longrightarrow>
     map_of (lowerOthers fl b s xs) k = map_option (lowerStep fl b) (map_of xs k)"
proof (induction xs)
  case Nil
  show ?case by (simp add: lowerOthers_def)
next
  case (Cons x xs)
  obtain a c where x: "x = (a, c)" by (cases x)
  show ?case using Cons.prems by (simp add: x lowerOthers_Cons Cons.IH)
qed

lemma map_of_lowerOthers_same: "map_of (lowerOthers fl b s xs) s = map_of xs s"
proof (induction xs)
  case Nil
  show ?case by (simp add: lowerOthers_def)
next
  case (Cons x xs)
  obtain a c where x: "x = (a, c)" by (cases x)
  show ?case by (simp add: x lowerOthers_Cons Cons.IH)
qed

lemma map_fst_map_assign: "k \<in> map_keys xs \<Longrightarrow> map fst (map_assign k v xs) = map fst xs"
  by (simp only: map_assign_present map_fst_assign_present)

lemma map_of_map_assign:
  "k \<in> map_keys xs \<Longrightarrow> map_of (map_assign k v xs) j = (if j = k then Some v else map_of xs j)"
  by (simp only: map_assign_present map_of_assign_present map_keys_def simp_thms if_True)

lemma map_keys_map_assign: "k \<in> map_keys xs \<Longrightarrow> map_keys (map_assign k v xs) = map_keys xs"
  by (simp add: map_keys_def map_fst_map_assign)

lemma map_index_eq: "map_of xs k = Some v \<Longrightarrow> map_index xs k = v"
  by (simp add: map_index_def)

lemma map_of_in_keys: "k \<in> map_keys xs \<Longrightarrow> \<exists>v. map_of xs k = Some v"
  by (metis map_keys_def map_of_eq_None_iff not_Some_eq set_map)

lemma map_of_insert_same:
  "map_of (map_insert s v0 xs) s = Some (case map_of xs s of None \<Rightarrow> v0 | Some v \<Rightarrow> v)"
proof (cases "s \<in> map_keys xs")
  case True
  then obtain v where "map_of xs s = Some v" using map_of_in_keys by fastforce
  then show ?thesis using True by (simp add: map_of_map_insert)
next
  case False
  then have "map_of xs s = None"
    by (simp add: map_keys_def map_of_eq_None_iff)
  then show ?thesis using False by (simp add: map_of_map_insert)
qed

lemma lowerOthers_in: "s \<in> map_keys (lowerOthers fl b s (map_insert s v0 freq))"
  by (simp add: map_keys_lowerOthers map_keys_insert)

lemma map_fst_updateFrequency:
  "map fst (updateFrequency fl b s freq) = map fst (map_insert s 0 freq)"
  by (simp add: updateFrequency_def Let_def map_fst_map_assign lowerOthers_in map_fst_lowerOthers)

lemma map_of_updateFrequency_same:
  "map_of (updateFrequency fl b s freq) s = Some (raiseStep fl b (map_index freq s))"
proof -
  let ?f1 = "lowerOthers fl b s (map_insert s 0 freq)"
  have "map_of ?f1 s = map_of (map_insert s 0 freq) s"
    by (rule map_of_lowerOthers_same)
  also have "\<dots> = Some (map_index freq s)"
    by (simp add: map_of_insert_same map_index_def)
  finally have idx: "map_index ?f1 s = map_index freq s"
    by (rule map_index_eq)
  show ?thesis
    by (simp add: updateFrequency_def Let_def map_of_map_assign lowerOthers_in idx)
qed

lemma map_of_updateFrequency_other:
  assumes "k \<noteq> s"
  shows "map_of (updateFrequency fl b s freq) k = map_option (lowerStep fl b) (map_of freq k)"
proof -
  let ?f1 = "lowerOthers fl b s (map_insert s 0 freq)"
  have "map_of (updateFrequency fl b s freq) k = map_of ?f1 k"
    using assms by (simp add: updateFrequency_def Let_def map_of_map_assign lowerOthers_in)
  also have "\<dots> = map_option (lowerStep fl b) (map_of (map_insert s 0 freq) k)"
    using assms by (rule map_of_lowerOthers_other)
  also have "map_of (map_insert s 0 freq) k = map_of freq k"
    using assms by (simp add: map_of_map_insert)
  finally show ?thesis .
qed

lemma map_fst_updateReward:
  "map fst (updateReward fl s r rew) = map fst (map_insert s r rew)"
  by (simp add: updateReward_def Let_def map_fst_map_assign map_keys_insert)

lemma map_of_updateReward:
  "map_of (updateReward fl s r rew) k =
     (if k = s then Some (rewardStep fl r (map_index (map_insert s r rew) s)) else map_of rew k)"
  by (simp add: updateReward_def Let_def map_of_map_assign map_keys_insert map_of_map_insert)

subsection \<open>Exact arithmetic\<close>

lemma lowerStep_exact: "lowerStep (\<lambda>x. x) b = (\<lambda>f. f + b * (0 - f))"
  by (rule ext) (simp add: lowerStep_def)

lemma raiseStep_exact: "raiseStep (\<lambda>x. x) b f = f + b * (1 - f)"
  by (simp add: raiseStep_def)

lemma map_of_updateFrequency_same_exact:
  "map_of (updateFrequency (\<lambda>x. x) b s freq) s =
     Some (map_index freq s + b * (1 - map_index freq s))"
  by (simp only: map_of_updateFrequency_same raiseStep_exact)

lemma map_of_updateFrequency_other_exact:
  assumes "k \<noteq> s"
  shows "map_of (updateFrequency (\<lambda>x. x) b s freq) k =
           map_option (\<lambda>f. f + b * (0 - f)) (map_of freq k)"
  using map_of_updateFrequency_other [OF assms, of "\<lambda>x. x" b freq]
  by (simp only: lowerStep_exact)

section \<open>The class invariant of StateActionTransition\<close>

lemma length_eq_of_keys:
  assumes "distinct (map fst xs)" "distinct (map fst ys)" "map_keys xs = map_keys ys"
  shows "length xs = length ys"
proof -
  have "length (map fst xs) = card (set (map fst xs))"
    using assms(1) by (simp only: distinct_card)
  also have "\<dots> = card (set (map fst ys))"
    using assms(3) by (simp only: map_keys_def)
  also have "\<dots> = length (map fst ys)"
    using assms(2) by (simp only: distinct_card)
  finally show ?thesis by simp
qed

lemma map_keys_updateFrequency:
  "map_keys (updateFrequency fl b s freq) = insert s (map_keys freq)"
proof -
  have "map_keys (updateFrequency fl b s freq) = map_keys (map_insert s 0 freq)"
    by (simp only: map_keys_def map_fst_updateFrequency)
  then show ?thesis by (simp only: map_keys_insert)
qed

lemma map_keys_updateReward:
  "map_keys (updateReward fl s r rew) = insert s (map_keys rew)"
proof -
  have "map_keys (updateReward fl s r rew) = map_keys (map_insert s r rew)"
    by (simp only: map_keys_def map_fst_updateReward)
  then show ?thesis by (simp only: map_keys_insert)
qed

lemma classInvariant_update_maps:
  assumes "classInvariant m"
  shows "distinct (map fst (updateFrequency fl b s (stateActionTransitionFrequency m)))"
    and "distinct (map fst (updateReward fl s r (stateActionTransitionReward m)))"
    and "map_keys (updateFrequency fl b s (stateActionTransitionFrequency m)) =
         map_keys (updateReward fl s r (stateActionTransitionReward m))"
  using assms
  by (simp_all add: classInvariant_def map_fst_updateFrequency map_fst_updateReward
      distinct_map_insert map_keys_updateFrequency map_keys_updateReward)

lemma update_succeeds:
  assumes "classInvariant m"
  shows "update fl m s r =
     Inr (m\<lparr>stateActionTransitionFrequency :=
               updateFrequency fl (stepSize m) s (stateActionTransitionFrequency m),
            stateActionTransitionReward := updateReward fl s r (stateActionTransitionReward m)\<rparr>)"
proof -
  have "length (updateFrequency fl (stepSize m) s (stateActionTransitionFrequency m)) =
        length (updateReward fl s r (stateActionTransitionReward m))"
    using classInvariant_update_maps [OF assms] by (rule length_eq_of_keys)
  then show ?thesis by (simp add: update_def Let_def)
qed

lemma update_classInvariant:
  assumes "classInvariant m" "update fl m s r = Inr m'"
  shows "classInvariant m'"
proof -
  have m': "m' = m\<lparr>stateActionTransitionFrequency :=
               updateFrequency fl (stepSize m) s (stateActionTransitionFrequency m),
            stateActionTransitionReward := updateReward fl s r (stateActionTransitionReward m)\<rparr>"
    using update_succeeds [OF assms(1), of fl s r] assms(2) by simp
  show ?thesis
    using classInvariant_update_maps [OF assms(1)]
    by (simp add: m' classInvariant_def)
qed

lemma update_frame:
  assumes "update fl m s r = Inr m'"
  shows "greedy m' = greedy m" and "stepSize m' = stepSize m"
  using assms by (auto simp: update_def Let_def split: if_splits)

lemma apply_operation_classInvariant:
  assumes "classInvariant m"
  shows "\<exists>m'. apply_operation fl m op = Inr m' \<and> classInvariant m'"
proof (cases op)
  case (Update s r)
  then show ?thesis
    using update_succeeds [OF assms, of fl s r] update_classInvariant [OF assms, of fl s r]
    by simp
next
  case (SetStepSize b)
  then show ?thesis using assms by (simp add: setStepSize_def classInvariant_def)
next
  case (SetGreedy g)
  then show ?thesis using assms by (simp add: setGreedy_def classInvariant_def)
qed

lemma run_classInvariant:
  "classInvariant m \<Longrightarrow> \<exists>m'. run fl m ops = Inr m' \<and> classInvariant m'"
proof (induction ops arbitrary: m)
  case Nil
  then show ?case by simp
next
  case (Cons op ops)
  obtain m1 where m1: "apply_operation fl m op = Inr m1" "classInvariant m1"
    using apply_operation_classInvariant [OF Cons.prems] by blast
  show ?case using Cons.IH [OF m1(2)] m1(1) by (simp add: bind_result_def)
qed

lemma init_classInvariant:
  "StateActionTransition_init g b = Inr m0 \<Longrightarrow> classInvariant m0"
  by (auto simp: StateActionTransition_init_def classInvariant_def map_keys_def)

lemma reachable_classInvariant:
  assumes "StateActionTransition_init g b = Inr m0" "run fl m0 ops = Inr m"
  shows "classInvariant m"
  using run_classInvariant [OF init_classInvariant [OF assms(1)], of fl ops] assms(2) by auto

section \<open>Claims about StateActionTransition\<close>

lemmas eval_defs = update_def updateFrequency_def updateReward_def map_insert_def map_assign_def
  lowerOthers_def lowerStep_def raiseStep_def rewardStep_def map_index_def map_keys_def
  bind_result_def Let_def

lemma run_example:
  "run (\<lambda>x. x) \<lparr>stateActionTransitionFrequency = [], stateActionTransitionReward = [],
         greedy = 1, stepSize = 1 / 2\<rparr> [Update (1::nat) 5, Update 2 7] =
   Inr \<lparr>stateActionTransitionFrequency = [(1, 1 / 4), (2, 1 / 2)],
        stateActionTransitionReward = [(1, 5), (2, 7)], greedy = 1, stepSize = 1 / 2\<rparr>"
  by (simp add: eval_defs)

text \<open>
  Claim C10. \<^verbatim>\<open>update(nextState, reward)\<close> never modifies the greediness or the step
  size, whatever the rounding of \<^verbatim>\<open>rl::FLOAT\<close> is: whenever the call returns, \<^verbatim>\<open>getGreedy()\<close> and \<^verbatim>\<open>getStepSize()\<close> give the values
  they gave before; and the call does return on every state that satisfies the class
  invariant (its closing \<^verbatim>\<open>assert\<close> holds there).
\<close>

theorem update_keeps_greedy_and_stepSize:
  "(classInvariant m \<longrightarrow> (\<exists>m'. update fl m nextState reward = Inr m')) \<and>
   (\<forall>m'. update fl m nextState reward = Inr m' \<longrightarrow>
      getGreedy m' = getGreedy m \<and> getStepSize m' = getStepSize m)"
proof (intro conjI impI allI)
  assume "classInvariant m"
  then show "\<exists>m'. update fl m nextState reward = Inr m'"
    using update_succeeds [of m fl nextState reward] by blast
next
  fix m' assume "update fl m nextState reward = Inr m'"
  then show "getGreedy m' = getGreedy m" by (simp add: getGreedy_def update_frame)
next
  fix m' assume "update fl m nextState reward = Inr m'"
  then show "getStepSize m' = getStepSize m" by (simp add: getStepSize_def update_frame)
qed

theorem update_keeps_greedy_and_stepSize_witness:
  "\<exists>m'. update (\<lambda>x. x) \<lparr>stateActionTransitionFrequency = [], stateActionTransitionReward = [],
               greedy = 1, stepSize = 1 / 2\<rparr> (7::nat) 5 = Inr m' \<and>
        getGreedy m' = 1 \<and> getStepSize m' = 1 / 2"
proof -
  let ?m = "\<lparr>stateActionTransitionFrequency = [], stateActionTransitionReward = [],
               greedy = 1, stepSize = 1 / 2\<rparr> :: nat StateActionTransition"
  have inv: "classInvariant ?m" by (simp add: classInvariant_def map_keys_def)
  show ?thesis
    using update_keeps_greedy_and_stepSize [of ?m "\<lambda>x. x" 7 5] inv
    by (auto simp: getGreedy_def getStepSize_def)
qed

text \<open>
  Claim C6. Whatever the rounding of \<^verbatim>\<open>rl::FLOAT\<close> is: starting from the model the
  constructor builds, every sequence of calls of the
  mutating operations (\<^verbatim>\<open>update\<close>, \<^verbatim>\<open>setStepSize\<close>, \<^verbatim>\<open>setGreedy\<close>) runs to its end, no
  \<^verbatim>\<open>assert\<close> of \<^verbatim>\<open>update\<close> failing, and leaves the key set of the frequency map equal to the
  key set of the reward map. The sequence may end with an \<^verbatim>\<open>update\<close>, so the equality holds
  after every call of \<^verbatim>\<open>update\<close>. The remaining methods are \<^verbatim>\<open>const\<close>, and the copy
  constructor copies the four members.
\<close>

theorem key_sets_equal_invariant:
  assumes "StateActionTransition_init g b = Inr m0"
  shows "\<exists>m. run fl m0 ops = Inr m \<and>
           map_keys (stateActionTransitionFrequency m) = map_keys (stateActionTransitionReward m)"
  using run_classInvariant [OF init_classInvariant [OF assms], of fl ops]
  by (auto simp: classInvariant_def)

theorem key_sets_equal_invariant_witness:
  "\<exists>m. run (\<lambda>x. x) \<lparr>stateActionTransitionFrequency = [], stateActionTransitionReward = [],
             greedy = 1, stepSize = 1 / 2\<rparr> [Update (1::nat) 5, SetGreedy 0, Update 2 7] = Inr m \<and>
       map_keys (stateActionTransitionFrequency m) = map_keys (stateActionTransitionReward m)"
proof -
  have init: "StateActionTransition_init 1 (1 / 2) =
      Inr (\<lparr>stateActionTransitionFrequency = [], stateActionTransitionReward = [],
             greedy = 1, stepSize = 1 / 2\<rparr> :: nat StateActionTransition)"
    by (simp add: StateActionTransition_init_def)
  show ?thesis by (rule key_sets_equal_invariant [OF init])
qed

text \<open>
  Claim C7. On every state the class can reach, whatever the rounding of \<^verbatim>\<open>rl::FLOAT\<close>
  is, \<^verbatim>\<open>getReward(s)\<close> throws the
  \<^verbatim>\<open>StateActionTransitionException\<close> "state not yet added." exactly when \<open>s\<close> is not a key of
  the model, and for a key it returns the reward stored for \<open>s\<close>. The method is \<^verbatim>\<open>const\<close>:
  it is a function of the state and returns no new state.
\<close>

theorem getReward_missing_iff:
  assumes "StateActionTransition_init g b = Inr m0" and "run fl m0 ops = Inr m"
  shows "(getReward m s = Inl (StateActionTransitionException ''state not yet added.'') \<longleftrightarrow>
            s \<notin> map_keys (stateActionTransitionFrequency m)) \<and>
         (s \<in> map_keys (stateActionTransitionFrequency m) \<longrightarrow>
            (\<exists>v. map_of (stateActionTransitionReward m) s = Some v \<and> getReward m s = Inr v))"
proof -
  have inv: "classInvariant m" using assms by (rule reachable_classInvariant)
  have find: "findState m s \<longleftrightarrow> s \<in> map_keys (stateActionTransitionFrequency m)"
    by (simp add: findState_def map_keys_def map_of_eq_None_iff)
  have keys: "map_keys (stateActionTransitionFrequency m) = map_keys (stateActionTransitionReward m)"
    using inv by (simp add: classInvariant_def)
  show ?thesis
  proof (cases "s \<in> map_keys (stateActionTransitionFrequency m)")
    case True
    then obtain v where v: "map_of (stateActionTransitionReward m) s = Some v"
      using keys map_of_in_keys [of s "stateActionTransitionReward m"] by auto
    show ?thesis using True v find by (simp add: getReward_def map_at_def)
  next
    case False
    then show ?thesis using find by (simp add: getReward_def)
  qed
qed

theorem getReward_missing_iff_witness:
  "run (\<lambda>x. x) \<lparr>stateActionTransitionFrequency = [], stateActionTransitionReward = [],
         greedy = 1, stepSize = 1 / 2\<rparr> [Update (1::nat) 5, Update 2 7] =
     Inr \<lparr>stateActionTransitionFrequency = [(1, 1 / 4), (2, 1 / 2)],
          stateActionTransitionReward = [(1, 5), (2, 7)], greedy = 1, stepSize = 1 / 2\<rparr> \<and>
   getReward \<lparr>stateActionTransitionFrequency = [(1::nat, 1 / 4), (2, 1 / 2)],
          stateActionTransitionReward = [(1, 5), (2, 7)], greedy = 1, stepSize = 1 / 2\<rparr> 2 = Inr 7 \<and>
   getReward \<lparr>stateActionTransitionFrequency = [(1::nat, 1 / 4), (2, 1 / 2)],
          stateActionTransitionReward = [(1, 5), (2, 7)], greedy = 1, stepSize = 1 / 2\<rparr> 3 =
     Inl (StateActionTransitionException ''state not yet added.'')"
proof -
  let ?e = "\<lparr>stateActionTransitionFrequency = [], stateActionTransitionReward = [],
               greedy = 1, stepSize = 1 / 2\<rparr> :: nat StateActionTransition"
  let ?m = "\<lparr>stateActionTransitionFrequency = [(1::nat, 1 / 4), (2, 1 / 2)],
          stateActionTransitionReward = [(1, 5), (2, 7)], greedy = 1, stepSize = 1 / 2\<rparr>"
  have init: "StateActionTransition_init 1 (1 / 2) = Inr ?e"
    by (simp add: StateActionTransition_init_def)
  have ran: "run (\<lambda>x. x) ?e [Update 1 5, Update 2 7] = Inr ?m"
    by (rule run_example)
  have "\<exists>v. map_of (stateActionTransitionReward ?m) 2 = Some v \<and> getReward ?m 2 = Inr v"
    using getReward_missing_iff [OF init ran, of 2] by (simp add: map_keys_def)
  then obtain v where v: "map_of (stateActionTransitionReward ?m) 2 = Some v" "getReward ?m 2 = Inr v"
    by blast
  from v(1) have "v = 7" by simp
  with v(2) have two: "getReward ?m 2 = Inr 7" by simp
  have three: "getReward ?m 3 = Inl (StateActionTransitionException ''state not yet added.'')"
    using getReward_missing_iff [OF init ran, of 3] by (simp add: map_keys_def)
  show ?thesis using ran two three by simp
qed

subsection \<open>Repeated updates with one next state\<close>






subsection \<open>Frequencies stay non-negative\<close>

lemma map_index_nonneg:
  assumes "\<forall>(k, f) \<in> set xs. 0 \<le> f"
  shows "0 \<le> map_index xs s"
proof (cases "map_of xs s")
  case None
  then show ?thesis by (simp add: map_index_def)
next
  case (Some v)
  then have "(s, v) \<in> set xs" by (rule map_of_SomeD)
  then show ?thesis using assms Some by (auto simp: map_index_def)
qed

lemma raise_bounds:
  fixes b f :: real
  assumes "0 < b" "b \<le> 1" "0 \<le> f"
  shows "b \<le> f + b * (1 - f)" and "0 \<le> f + b * (0 - f)"
proof -
  have "0 \<le> (1 - b) * f" using assms by simp
  moreover have "f + b * (1 - f) = (1 - b) * f + b" by (simp add: algebra_simps)
  moreover have "f + b * (0 - f) = (1 - b) * f" by (simp add: algebra_simps)
  ultimately show "b \<le> f + b * (1 - f)" and "0 \<le> f + b * (0 - f)" by simp_all
qed

lemma updateFrequency_nonneg:
  assumes b: "0 < b" "b \<le> 1" and d: "distinct (map fst freq)"
    and nn: "\<forall>(k, f) \<in> set freq. 0 \<le> f"
  shows "\<forall>(k, f) \<in> set (updateFrequency (\<lambda>x. x) b s freq). 0 \<le> f"
proof (clarify)
  fix k f assume kf: "(k, f) \<in> set (updateFrequency (\<lambda>x. x) b s freq)"
  have "distinct (map fst (updateFrequency (\<lambda>x. x) b s freq))"
    using d by (simp add: map_fst_updateFrequency distinct_map_insert)
  then have look: "map_of (updateFrequency (\<lambda>x. x) b s freq) k = Some f"
    using kf by (rule map_of_is_SomeI)
  show "0 \<le> f"
  proof (cases "k = s")
    case True
    then have "f = map_index freq s + b * (1 - map_index freq s)"
      using look by (simp add: map_of_updateFrequency_same_exact)
    then show ?thesis using raise_bounds(1) [OF b map_index_nonneg [OF nn], of s] b(1) by simp
  next
    case False
    then have "map_option (\<lambda>f. f + b * (0 - f)) (map_of freq k) = Some f"
      using look by (simp add: map_of_updateFrequency_other_exact)
    then obtain f' where f': "map_of freq k = Some f'" "f = f' + b * (0 - f')"
      by (cases "map_of freq k") auto
    have "(k, f') \<in> set freq" using f'(1) by (rule map_of_SomeD)
    then have "0 \<le> f'" using nn by auto
    then show ?thesis using raise_bounds(2) [OF b] f'(2) by simp
  qed
qed

lemma updateFrequency_raised:
  assumes b: "0 < b" "b \<le> 1" and nn: "\<forall>(k, f) \<in> set freq. 0 \<le> f"
  shows "\<exists>f. (s, f) \<in> set (updateFrequency (\<lambda>x. x) b s freq) \<and> b \<le> f"
proof -
  let ?f = "map_index freq s + b * (1 - map_index freq s)"
  have "map_of (updateFrequency (\<lambda>x. x) b s freq) s = Some ?f"
    by (rule map_of_updateFrequency_same_exact)
  then have "(s, ?f) \<in> set (updateFrequency (\<lambda>x. x) b s freq)" by (rule map_of_SomeD)
  moreover have "b \<le> ?f" using raise_bounds(1) [OF b map_index_nonneg [OF nn]] .
  ultimately show ?thesis by blast
qed

lemma entry_le_sum:
  assumes "\<forall>(k, f) \<in> set xs. (0::real) \<le> f" "(s, v) \<in> set xs"
  shows "v \<le> sum_list (map snd xs)"
  using assms
proof (induction xs)
  case Nil
  then show ?case by simp
next
  case (Cons x xs)
  have rest: "0 \<le> sum_list (map snd xs)"
    using Cons.prems(1) by (intro sum_list_nonneg) auto
  have head: "0 \<le> snd x" using Cons.prems(1) by (cases x) auto
  show ?case
  proof (cases "x = (s, v)")
    case True
    then show ?thesis using rest by simp
  next
    case False
    then have "(s, v) \<in> set xs" using Cons.prems(2) by simp
    moreover have "\<forall>(k, f) \<in> set xs. 0 \<le> f" using Cons.prems(1) by simp
    ultimately have "v \<le> sum_list (map snd xs)" by (rule Cons.IH [rotated])
    then show ?thesis using head by simp
  qed
qed

lemma update_nonneg:
  assumes inv: "classInvariant m" and b: "0 < stepSize m" "stepSize m \<le> 1"
    and nn: "\<forall>(k, f) \<in> set (stateActionTransitionFrequency m). 0 \<le> f"
    and upd: "update (\<lambda>x. x) m s r = Inr m'"
  shows "\<forall>(k, f) \<in> set (stateActionTransitionFrequency m'). 0 \<le> f"
    and "0 < sum_list (map snd (stateActionTransitionFrequency m'))"
proof -
  have freq': "stateActionTransitionFrequency m' =
      updateFrequency (\<lambda>x. x) (stepSize m) s (stateActionTransitionFrequency m)"
    using update_succeeds [OF inv, of "\<lambda>x. x" s r] upd by auto
  have d: "distinct (map fst (stateActionTransitionFrequency m))"
    using inv by (simp add: classInvariant_def)
  show nn': "\<forall>(k, f) \<in> set (stateActionTransitionFrequency m'). 0 \<le> f"
    unfolding freq' using b d nn by (rule updateFrequency_nonneg)
  obtain f where f: "(s, f) \<in> set (stateActionTransitionFrequency m')" "stepSize m \<le> f"
    unfolding freq' using updateFrequency_raised [OF b nn] by blast
  have "f \<le> sum_list (map snd (stateActionTransitionFrequency m'))"
    using nn' f(1) by (rule entry_le_sum)
  then show "0 < sum_list (map snd (stateActionTransitionFrequency m'))"
    using f(2) b(1) by linarith
qed

lemma run_updates:
  assumes "classInvariant m" "0 < stepSize m" "stepSize m \<le> 1"
    and "\<forall>(k, f) \<in> set (stateActionTransitionFrequency m). 0 \<le> f"
  shows "\<exists>m'. run (\<lambda>x. x) m (map (\<lambda>(s, r). Update s r) calls) = Inr m' \<and> classInvariant m' \<and>
           stepSize m' = stepSize m \<and>
           (\<forall>(k, f) \<in> set (stateActionTransitionFrequency m'). 0 \<le> f) \<and>
           (calls \<noteq> [] \<longrightarrow> 0 < sum_list (map snd (stateActionTransitionFrequency m')))"
  using assms
proof (induction calls arbitrary: m)
  case Nil
  then show ?case by simp
next
  case (Cons c calls)
  obtain s r where c: "c = (s, r)" by (cases c)
  obtain m1 where m1: "update (\<lambda>x. x) m s r = Inr m1"
    using update_succeeds [OF Cons.prems(1), of "\<lambda>x. x" s r] by blast
  have inv1: "classInvariant m1" using Cons.prems(1) m1 by (rule update_classInvariant)
  have b1: "stepSize m1 = stepSize m" using m1 by (rule update_frame)
  have nn1: "\<forall>(k, f) \<in> set (stateActionTransitionFrequency m1). 0 \<le> f"
    using Cons.prems m1 by (rule update_nonneg(1))
  have pos1: "0 < sum_list (map snd (stateActionTransitionFrequency m1))"
    using Cons.prems m1 by (rule update_nonneg(2))
  obtain m' where m': "run (\<lambda>x. x) m1 (map (\<lambda>(s, r). Update s r) calls) = Inr m'" "classInvariant m'"
      "stepSize m' = stepSize m1"
      "\<forall>(k, f) \<in> set (stateActionTransitionFrequency m'). 0 \<le> f"
      "calls \<noteq> [] \<longrightarrow> 0 < sum_list (map snd (stateActionTransitionFrequency m'))"
    using Cons.IH [OF inv1, unfolded b1, OF Cons.prems(2) Cons.prems(3) nn1] b1 by auto
  have ran: "run (\<lambda>x. x) m (map (\<lambda>(s, r). Update s r) (c # calls)) = Inr m'"
    using m1 m'(1) by (simp add: c bind_result_def)
  have pos: "0 < sum_list (map snd (stateActionTransitionFrequency m'))"
  proof (cases "calls = []")
    case True
    then have "m' = m1" using m'(1) by simp
    then show ?thesis using pos1 by simp
  next
    case False
    then show ?thesis using m'(5) by simp
  qed
  show ?case using ran m'(2) m'(3) m'(4) b1 pos by simp
qed

text \<open>
  Claim C9. For a model constructed with a step size in \<open>(0, 1]\<close>, every finite sequence of
  \<^verbatim>\<open>update\<close> calls from the empty model runs to its end and leaves every stored frequency
  non-negative. Every prefix of a sequence is a sequence, so this holds after each call. The
  theorem is the one of exact arithmetic; \<open>frequencies_nonnegative_rounded\<close> below extends
  it to every rounding that is monotone, odd and idempotent and keeps zero.
\<close>

theorem frequencies_nonnegative:
  assumes "0 < b" "b \<le> 1" "StateActionTransition_init g b = Inr m0"
  shows "\<exists>m. run (\<lambda>x. x) m0 (map (\<lambda>(s, r). Update s r) calls) = Inr m \<and>
           (\<forall>(k, f) \<in> set (stateActionTransitionFrequency m). 0 \<le> f)"
proof -
  have m0: "m0 = \<lparr>stateActionTransitionFrequency = [], stateActionTransitionReward = [],
                 greedy = g, stepSize = b\<rparr>"
    using assms(3) by (simp add: StateActionTransition_init_def)
  have "classInvariant m0" using assms(3) by (rule init_classInvariant)
  moreover have "0 < stepSize m0" "stepSize m0 \<le> 1" using assms(1,2) by (simp_all add: m0)
  moreover have "\<forall>(k, f) \<in> set (stateActionTransitionFrequency m0). 0 \<le> f" by (simp add: m0)
  ultimately show ?thesis using run_updates [of m0 calls] by blast
qed

theorem frequencies_nonnegative_witness:
  "run (\<lambda>x. x) \<lparr>stateActionTransitionFrequency = [], stateActionTransitionReward = [],
         greedy = 1, stepSize = 1 / 2\<rparr> (map (\<lambda>(s, r). Update s r) [(1::nat, 5), (2, 7)]) =
     Inr \<lparr>stateActionTransitionFrequency = [(1, 1 / 4), (2, 1 / 2)],
          stateActionTransitionReward = [(1, 5), (2, 7)], greedy = 1, stepSize = 1 / 2\<rparr> \<and>
   list_all (\<lambda>(k, f). 0 \<le> f) [(1::nat, 1 / 4 :: real), (2, 1 / 2)]"
proof -
  let ?e = "\<lparr>stateActionTransitionFrequency = [], stateActionTransitionReward = [],
               greedy = 1, stepSize = 1 / 2\<rparr> :: nat StateActionTransition"
  let ?n = "\<lparr>stateActionTransitionFrequency = [(1::nat, 1 / 4), (2, 1 / 2)],
          stateActionTransitionReward = [(1, 5), (2, 7)], greedy = 1, stepSize = 1 / 2\<rparr>"
  have init: "StateActionTransition_init 1 (1 / 2) = Inr ?e"
    by (simp add: StateActionTransition_init_def)
  have ran: "run (\<lambda>x. x) ?e (map (\<lambda>(s, r). Update s r) [(1, 5), (2, 7)]) = Inr ?n"
    using run_example by simp
  obtain m where m: "run (\<lambda>x. x) ?e (map (\<lambda>(s, r). Update s r) [(1, 5), (2, 7)]) = Inr m"
      "\<forall>(k, f) \<in> set (stateActionTransitionFrequency m). 0 \<le> f"
    using frequencies_nonnegative [OF _ _ init, of "[(1, 5), (2, 7)]"] by auto
  have "m = ?n" using m(1) ran by simp
  then have "list_all (\<lambda>(k, f). 0 \<le> f) [(1::nat, 1 / 4 :: real), (2, 1 / 2)]"
    using m(2) by simp
  then show ?thesis using ran by blast
qed

subsection \<open>Non-negative frequencies under rounding\<close>

lemma lowerStep_rounded:
  assumes fl0: "fl 0 = 0" and mono: "\<And>x y. x \<le> y \<Longrightarrow> fl x \<le> fl y"
    and odd: "\<And>x. fl (- x) = - fl x"
    and b: "0 < b" "b \<le> 1" and f: "0 \<le> f" "fl f = f"
  shows "0 \<le> lowerStep fl b f"
proof -
  have neg: "fl (- f) = - f" using odd [of f] f(2) by simp
  have "b * f \<le> f" using b f(1) by (simp add: mult_left_le_one_le)
  then have "fl (b * f) \<le> f" using mono [of "b * f" f] f(2) by simp
  then have "0 \<le> f + fl (b * (- f))" using odd [of "b * f"] by simp
  then have "fl 0 \<le> fl (f + fl (b * (- f)))" by (rule mono)
  then show ?thesis by (simp add: lowerStep_def neg fl0)
qed

lemma raiseStep_rounded:
  assumes fl0: "fl 0 = 0" and mono: "\<And>x y. x \<le> y \<Longrightarrow> fl x \<le> fl y"
    and odd: "\<And>x. fl (- x) = - fl x"
    and b: "0 < b" "b \<le> 1" and f: "0 \<le> f" "fl f = f"
  shows "0 \<le> raiseStep fl b f"
proof -
  have "0 \<le> f + fl (b * fl (1 - f))"
  proof (cases "f \<le> 1")
    case True
    then have "fl 0 \<le> fl (1 - f)" by (intro mono) simp
    then have "0 \<le> b * fl (1 - f)" using b(1) by (simp add: fl0)
    then have "fl 0 \<le> fl (b * fl (1 - f))" by (rule mono)
    then show ?thesis using f(1) by (simp add: fl0)
  next
    case False
    let ?y = "fl (f - 1)"
    have y: "fl (1 - f) = - ?y" using odd [of "f - 1"] by simp
    have "fl 0 \<le> ?y" using False by (intro mono) simp
    then have y0: "0 \<le> ?y" by (simp add: fl0)
    have "?y \<le> fl f" by (intro mono) simp
    then have yf: "?y \<le> f" by (simp add: f(2))
    have "b * ?y \<le> ?y" using b y0 by (simp add: mult_left_le_one_le)
    then have "b * ?y \<le> f" using yf by simp
    then have "fl (b * ?y) \<le> f" using mono [of "b * ?y" f] f(2) by simp
    then show ?thesis using odd [of "b * ?y"] by (simp add: y)
  qed
  then have "fl 0 \<le> fl (f + fl (b * fl (1 - f)))" by (rule mono)
  then show ?thesis by (simp add: raiseStep_def fl0)
qed

lemma updateFrequency_rounded:
  assumes fl0: "fl 0 = 0" and mono: "\<And>x y. x \<le> y \<Longrightarrow> fl x \<le> fl y"
    and odd: "\<And>x. fl (- x) = - fl x" and idem: "\<And>x. fl (fl x) = fl x"
    and b: "0 < b" "b \<le> 1" and d: "distinct (map fst freq)"
    and nn: "\<forall>(k, f) \<in> set freq. 0 \<le> f \<and> fl f = f"
  shows "\<forall>(k, f) \<in> set (updateFrequency fl b s freq). 0 \<le> f \<and> fl f = f"
proof (clarify)
  fix k f assume kf: "(k, f) \<in> set (updateFrequency fl b s freq)"
  have "distinct (map fst (updateFrequency fl b s freq))"
    using d by (simp add: map_fst_updateFrequency distinct_map_insert)
  then have look: "map_of (updateFrequency fl b s freq) k = Some f"
    using kf by (rule map_of_is_SomeI)
  show "0 \<le> f \<and> fl f = f"
  proof (cases "k = s")
    case True
    let ?f0 = "map_index freq s"
    have f0: "0 \<le> ?f0 \<and> fl ?f0 = ?f0"
    proof (cases "map_of freq s")
      case None
      then show ?thesis by (simp add: map_index_def fl0)
    next
      case (Some v)
      then have "(s, v) \<in> set freq" by (rule map_of_SomeD)
      then show ?thesis using nn Some by (auto simp: map_index_def)
    qed
    have "f = raiseStep fl b ?f0"
      using look True by (simp add: map_of_updateFrequency_same)
    moreover have "0 \<le> raiseStep fl b ?f0"
      using fl0 mono odd b f0 by (intro raiseStep_rounded) simp_all
    moreover have "fl (raiseStep fl b ?f0) = raiseStep fl b ?f0"
      by (simp add: raiseStep_def idem)
    ultimately show ?thesis by simp
  next
    case False
    then have "map_option (lowerStep fl b) (map_of freq k) = Some f"
      using look by (simp add: map_of_updateFrequency_other)
    then obtain f' where f': "map_of freq k = Some f'" "f = lowerStep fl b f'"
      by (cases "map_of freq k") auto
    have "(k, f') \<in> set freq" using f'(1) by (rule map_of_SomeD)
    then have "0 \<le> f'" "fl f' = f'" using nn by auto
    then have "0 \<le> lowerStep fl b f'"
      using fl0 mono odd b by (intro lowerStep_rounded) simp_all
    moreover have "fl (lowerStep fl b f') = lowerStep fl b f'"
      by (simp add: lowerStep_def idem)
    ultimately show ?thesis by (simp add: f'(2))
  qed
qed

lemma frequencies_nonnegative_rounded:
  assumes fl0: "fl 0 = 0" and mono: "\<And>x y. x \<le> y \<Longrightarrow> fl x \<le> fl y"
    and odd: "\<And>x. fl (- x) = - fl x" and idem: "\<And>x. fl (fl x) = fl x"
    and b: "0 < stepSize m" "stepSize m \<le> 1" and inv: "classInvariant m"
    and nn: "\<forall>(k, f) \<in> set (stateActionTransitionFrequency m). 0 \<le> f \<and> fl f = f"
  shows "\<exists>m'. run fl m (map (\<lambda>(s, r). Update s r) calls) = Inr m' \<and>
           (\<forall>(k, f) \<in> set (stateActionTransitionFrequency m'). 0 \<le> f)"
  using b inv nn
proof (induction calls arbitrary: m)
  case Nil
  then show ?case by auto
next
  case (Cons c calls)
  obtain s r where c: "c = (s, r)" by (cases c)
  let ?m1 = "m\<lparr>stateActionTransitionFrequency :=
               updateFrequency fl (stepSize m) s (stateActionTransitionFrequency m),
            stateActionTransitionReward := updateReward fl s r (stateActionTransitionReward m)\<rparr>"
  have m1: "update fl m s r = Inr ?m1"
    using Cons.prems(3) by (rule update_succeeds)
  have inv1: "classInvariant ?m1" using Cons.prems(3) m1 by (rule update_classInvariant)
  have d: "distinct (map fst (stateActionTransitionFrequency m))"
    using Cons.prems(3) by (simp add: classInvariant_def)
  have nn1: "\<forall>(k, f) \<in> set (stateActionTransitionFrequency ?m1). 0 \<le> f \<and> fl f = f"
    using updateFrequency_rounded [OF fl0 mono odd idem Cons.prems(1,2) d Cons.prems(4), of s]
    by simp
  have "\<exists>m'. run fl ?m1 (map (\<lambda>(s, r). Update s r) calls) = Inr m' \<and>
           (\<forall>(k, f) \<in> set (stateActionTransitionFrequency m'). 0 \<le> f)"
    using Cons.prems(1,2) inv1 nn1 by (intro Cons.IH) simp_all
  then show ?case using m1 by (simp add: c bind_result_def)
qed

subsection \<open>The weighted walk in exact arithmetic\<close>

lemma sumFrequencies_eq: "sumFrequencies (\<lambda>x. x) xs acc = acc + sum_list (map snd xs)"
proof (induction xs arbitrary: acc)
  case Nil
  show ?case by simp
next
  case (Cons x xs)
  obtain k f where x: "x = (k, f)" by (cases x)
  show ?case by (simp add: x Cons.IH)
qed

lemma weightedWalk_returns:
  "0 \<le> v \<Longrightarrow> v < sum_list (map snd xs) \<Longrightarrow>
     \<exists>k \<in> map_keys xs. weightedWalk (\<lambda>x. x) xs v = Inr k"
proof (induction xs arbitrary: v)
  case Nil
  then show ?case by simp
next
  case (Cons x xs)
  obtain state currentFreq where x: "x = (state, currentFreq)" by (cases x)
  show ?case
  proof (cases "currentFreq > v")
    case True
    then show ?thesis by (simp add: x map_keys_def)
  next
    case False
    then have "0 \<le> v - currentFreq" "v - currentFreq < sum_list (map snd xs)"
      using Cons.prems by (simp_all add: x)
    then have "\<exists>k \<in> map_keys xs. weightedWalk (\<lambda>x. x) xs (v - currentFreq) = Inr k"
      by (rule Cons.IH)
    then show ?thesis using False by (auto simp: x map_keys_def)
  qed
qed

lemma getNextState_returns:
  assumes "0 < sum_list (map snd (stateActionTransitionFrequency m))" "0 \<le> c2" "c2 < 1"
  shows "\<exists>k \<in> map_keys (stateActionTransitionFrequency m). getNextState (\<lambda>x. x) m c1 d c2 = Inr k"
proof -
  let ?freq = "stateActionTransitionFrequency m"
  let ?F = "sum_list (map snd ?freq)"
  have ne: "?freq \<noteq> []" using assms(1) by auto
  show ?thesis
  proof (cases "uniform_real_distribution (\<lambda>x. x) 0 1 c1 > greedy m")
    case True
    have "d mod length ?freq < length ?freq" using ne by simp
    then have "fst (?freq ! (d mod length ?freq)) \<in> map_keys ?freq"
      by (simp add: map_keys_def)
    then show ?thesis using True ne by (simp add: getNextState_def Let_def)
  next
    case False
    have v: "uniform_real_distribution (\<lambda>x. x) 0 (sumFrequencies (\<lambda>x. x) ?freq 0) c2 = ?F * c2"
      by (simp add: uniform_real_distribution_def sumFrequencies_eq)
    have "0 \<le> ?F * c2" using assms(1,2) by simp
    moreover have "?F * c2 < ?F" using assms(1,3) by simp
    ultimately have "\<exists>k \<in> map_keys ?freq. weightedWalk (\<lambda>x. x) ?freq (?F * c2) = Inr k"
      by (rule weightedWalk_returns)
    then show ?thesis using False ne by (simp add: getNextState_def Let_def v)
  qed
qed

text \<open>
  In exact arithmetic \<^verbatim>\<open>getNextState\<close> returns a stored key on every model built from the
  empty one by at least one \<^verbatim>\<open>update\<close> with a step size in \<open>(0, 1]\<close>, whatever the draws
  are, the second one being taken from \<open>[0, freqValSum)\<close>; and it throws on a model without
  keys.
\<close>

lemma getNextState_total_exact:
  assumes "0 < b" "b \<le> 1" "StateActionTransition_init g b = Inr m0"
    and "calls \<noteq> []" "0 \<le> c2" "c2 < 1"
  shows "(stateActionTransitionFrequency e = [] \<longrightarrow>
            getNextState (\<lambda>x. x) e c1 d c2 = Inl (StateActionTransitionException ''nextStates are empty.'')) \<and>
         (\<exists>m. run (\<lambda>x. x) m0 (map (\<lambda>(s, r). Update s r) calls) = Inr m \<and>
              (\<exists>k \<in> map_keys (stateActionTransitionFrequency m). getNextState (\<lambda>x. x) m c1 d c2 = Inr k))"
proof -
  have m0: "m0 = \<lparr>stateActionTransitionFrequency = [], stateActionTransitionReward = [],
                 greedy = g, stepSize = b\<rparr>"
    using assms(3) by (simp add: StateActionTransition_init_def)
  have empty: "stateActionTransitionFrequency e = [] \<longrightarrow>
      getNextState (\<lambda>x. x) e c1 d c2 = Inl (StateActionTransitionException ''nextStates are empty.'')"
    by (simp add: getNextState_def)
  have "classInvariant m0" using assms(3) by (rule init_classInvariant)
  moreover have "0 < stepSize m0" "stepSize m0 \<le> 1" using assms(1,2) by (simp_all add: m0)
  moreover have "\<forall>(k, f) \<in> set (stateActionTransitionFrequency m0). 0 \<le> f" by (simp add: m0)
  ultimately obtain m where m: "run (\<lambda>x. x) m0 (map (\<lambda>(s, r). Update s r) calls) = Inr m"
      "0 < sum_list (map snd (stateActionTransitionFrequency m))"
    using run_updates [of m0 calls] assms(4) by blast
  have "\<exists>k \<in> map_keys (stateActionTransitionFrequency m). getNextState (\<lambda>x. x) m c1 d c2 = Inr k"
    using m(2) assms(5,6) by (rule getNextState_returns)
  then show ?thesis using empty m(1) by blast
qed

section \<open>Evaluating the rounding\<close>

lemma roundToPrecision_eval:
  assumes lo: "2 powi e \<le> \<bar>x\<bar>" and hi: "\<bar>x\<bar> < 2 powi (e + 1)"
    and n: "roundTiesToEven (x / 2 powi (e - (int p - 1))) = n"
    and y: "of_int n * 2 powi (e - (int p - 1)) = y"
  shows "roundToPrecision p x = y"
proof -
  have pos: "0 < \<bar>x\<bar>"
    using lo by (rule less_le_trans [rotated]) simp
  then have nz: "x \<noteq> 0" by simp
  have "(2::real) powr real_of_int e = 2 powi e"
       "(2::real) powr real_of_int (e + 1) = 2 powi (e + 1)"
    by (rule powr_real_of_int'; simp)+
  then have "2 powr real_of_int e \<le> \<bar>x\<bar> \<and> \<bar>x\<bar> < 2 powr real_of_int (e + 1)"
    using lo hi by (simp only: simp_thms)
  then have "\<lfloor>log 2 \<bar>x\<bar>\<rfloor> = e"
    using pos by (simp add: floor_log_eq_powr_iff)
  then show ?thesis using nz n y by (simp add: roundToPrecision_def Let_def)
qed

lemma binary64_eval:
  assumes "2 powi e \<le> \<bar>x\<bar>" and "\<bar>x\<bar> < 2 powi (e + 1)"
    and "roundTiesToEven (x / 2 powi (e - 52)) = n"
    and "of_int n * 2 powi (e - 52) = y"
  shows "binary64 x = y"
  unfolding binary64_def using assms by (intro roundToPrecision_eval [where e = e and n = n]) simp_all

lemma binary32_eval:
  assumes "2 powi e \<le> \<bar>x\<bar>" and "\<bar>x\<bar> < 2 powi (e + 1)"
    and "roundTiesToEven (x / 2 powi (e - 23)) = n"
    and "of_int n * 2 powi (e - 23) = y"
  shows "binary32 x = y"
  unfolding binary32_def using assms by (intro roundToPrecision_eval [where e = e and n = n]) simp_all

subsection \<open>A run in binary64\<close>

lemma b64_r1: "binary64 (0 - 0) = 0"
  by (simp add: binary64_def roundToPrecision_def)

lemma b64_r2: "binary64 (1 * 0) = 0"
  by (simp add: binary64_def roundToPrecision_def)

lemma b64_r3: "binary64 (0 + 0) = 0"
  by (simp add: binary64_def roundToPrecision_def)

lemma b64_r4: "binary64 (1 - 0) = 1"
  by (rule binary64_eval [where e = "0" and n = "4503599627370496"])
     (simp_all add: roundTiesToEven_def Let_def power_int_minus)

lemma b64_r5: "binary64 ((3602879701896397 / 4503599627370496) * 1) = (3602879701896397 / 4503599627370496)"
  by (rule binary64_eval [where e = "-1" and n = "7205759403792794"])
     (simp_all add: roundTiesToEven_def Let_def power_int_minus)

lemma b64_r6: "binary64 (0 + (3602879701896397 / 4503599627370496)) = (3602879701896397 / 4503599627370496)"
  by (rule binary64_eval [where e = "-1" and n = "7205759403792794"])
     (simp_all add: roundTiesToEven_def Let_def power_int_minus)

lemma b64_r7: "binary64 (0 - (3602879701896397 / 4503599627370496)) = (- (3602879701896397 / 4503599627370496))"
  by (rule binary64_eval [where e = "-1" and n = "-7205759403792794"])
     (simp_all add: roundTiesToEven_def Let_def power_int_minus)

lemma b64_r8: "binary64 ((3602879701896397 / 4503599627370496) * (- (3602879701896397 / 4503599627370496))) = (- (1441151880758559 / 2251799813685248))"
  by (rule binary64_eval [where e = "-1" and n = "-5764607523034236"])
     (simp_all add: roundTiesToEven_def Let_def power_int_minus)

lemma b64_r9: "binary64 ((3602879701896397 / 4503599627370496) + (- (1441151880758559 / 2251799813685248))) = (720575940379279 / 4503599627370496)"
  by (rule binary64_eval [where e = "-3" and n = "5764607523034232"])
     (simp_all add: roundTiesToEven_def Let_def power_int_minus)

lemma b64_r10: "binary64 (0 - (720575940379279 / 4503599627370496)) = (- (720575940379279 / 4503599627370496))"
  by (rule binary64_eval [where e = "-3" and n = "-5764607523034232"])
     (simp_all add: roundTiesToEven_def Let_def power_int_minus)

lemma b64_r11: "binary64 ((3602879701896397 / 4503599627370496) * (- (720575940379279 / 4503599627370496))) = (- (2305843009213693 / 18014398509481984))"
  by (rule binary64_eval [where e = "-3" and n = "-4611686018427386"])
     (simp_all add: roundTiesToEven_def Let_def power_int_minus)

lemma b64_r12: "binary64 ((720575940379279 / 4503599627370496) + (- (2305843009213693 / 18014398509481984))) = (576460752303423 / 18014398509481984)"
  by (rule binary64_eval [where e = "-5" and n = "4611686018427384"])
     (simp_all add: roundTiesToEven_def Let_def power_int_minus)

lemma b64_r13: "binary64 (1 - (3602879701896397 / 4503599627370496)) = (900719925474099 / 4503599627370496)"
  by (rule binary64_eval [where e = "-3" and n = "7205759403792792"])
     (simp_all add: roundTiesToEven_def Let_def power_int_minus)

lemma b64_r14: "binary64 ((3602879701896397 / 4503599627370496) * (900719925474099 / 4503599627370496)) = (2882303761517117 / 18014398509481984)"
  by (rule binary64_eval [where e = "-3" and n = "5764607523034234"])
     (simp_all add: roundTiesToEven_def Let_def power_int_minus)

lemma b64_r15: "binary64 ((3602879701896397 / 4503599627370496) + (2882303761517117 / 18014398509481984)) = (1080863910568919 / 1125899906842624)"
  by (rule binary64_eval [where e = "-1" and n = "8646911284551352"])
     (simp_all add: roundTiesToEven_def Let_def power_int_minus)

lemma b64_r16: "binary64 (0 + (576460752303423 / 18014398509481984)) = (576460752303423 / 18014398509481984)"
  by (rule binary64_eval [where e = "-5" and n = "4611686018427384"])
     (simp_all add: roundTiesToEven_def Let_def power_int_minus)

lemma b64_r17: "binary64 ((576460752303423 / 18014398509481984) + (1080863910568919 / 1125899906842624)) = (1116892707587883 / 1125899906842624)"
  by (rule binary64_eval [where e = "-1" and n = "8935141660703064"])
     (simp_all add: roundTiesToEven_def Let_def power_int_minus)

lemma b64_r18: "binary64 (0 * 1) = 0"
  by (simp add: binary64_def roundToPrecision_def)

lemma b64_r19: "binary64 ((1116892707587883 / 1125899906842624) - 0) = (1116892707587883 / 1125899906842624)"
  by (rule binary64_eval [where e = "-1" and n = "8935141660703064"])
     (simp_all add: roundTiesToEven_def Let_def power_int_minus)

lemma b64_r20: "binary64 ((9007199254740991 / 9007199254740992) * (1116892707587883 / 1125899906842624)) = (8935141660703063 / 9007199254740992)"
  by (rule binary64_eval [where e = "-1" and n = "8935141660703063"])
     (simp_all add: roundTiesToEven_def Let_def power_int_minus)

lemma b64_r21: "binary64 ((8935141660703063 / 9007199254740992) + 0) = (8935141660703063 / 9007199254740992)"
  by (rule binary64_eval [where e = "-1" and n = "8935141660703063"])
     (simp_all add: roundTiesToEven_def Let_def power_int_minus)

lemma b64_r22: "binary64 ((8935141660703063 / 9007199254740992) - (576460752303423 / 18014398509481984)) = (1080863910568919 / 1125899906842624)"
  by (rule binary64_eval [where e = "-1" and n = "8646911284551352"])
     (simp_all add: roundTiesToEven_def Let_def power_int_minus)

lemma b64_r23: "binary64 ((1080863910568919 / 1125899906842624) - (1080863910568919 / 1125899906842624)) = 0"
  by (simp add: binary64_def roundToPrecision_def)

lemma b64_raiseStep1: "raiseStep binary64 (3602879701896397 / 4503599627370496) 0 = 3602879701896397 / 4503599627370496"
  by (simp only: raiseStep_def b64_r4 b64_r5 b64_r6)

lemma b64_lowerStep2: "lowerStep binary64 (3602879701896397 / 4503599627370496) (3602879701896397 / 4503599627370496) = 720575940379279 / 4503599627370496"
  by (simp only: lowerStep_def b64_r7 b64_r8 b64_r9)

lemma b64_lowerStep3: "lowerStep binary64 (3602879701896397 / 4503599627370496) (720575940379279 / 4503599627370496) = 576460752303423 / 18014398509481984"
  by (simp only: lowerStep_def b64_r10 b64_r11 b64_r12)

lemma b64_raiseStep4: "raiseStep binary64 (3602879701896397 / 4503599627370496) (3602879701896397 / 4503599627370496) = 1080863910568919 / 1125899906842624"
  by (simp only: raiseStep_def b64_r13 b64_r14 b64_r15)

lemma b64_rewardStep: "rewardStep binary64 0 0 = 0"
  by (simp only: rewardStep_def b64_r1 b64_r2 b64_r3)

lemma b64_update1:
  "update binary64
     \<lparr>stateActionTransitionFrequency = [], stateActionTransitionReward = [],
      greedy = 1, stepSize = 3602879701896397 / 4503599627370496\<rparr> 1 0 =
   Inr \<lparr>stateActionTransitionFrequency = [(1::nat, 3602879701896397 / 4503599627370496)], stateActionTransitionReward = [(1::nat, 0)],
      greedy = 1, stepSize = 3602879701896397 / 4503599627370496\<rparr>"
  by (simp add: update_def updateFrequency_def updateReward_def map_insert_def map_assign_def
      lowerOthers_def map_index_def map_keys_def Let_def b64_raiseStep1 b64_lowerStep2 b64_lowerStep3 b64_raiseStep4 b64_rewardStep)

lemma b64_update2:
  "update binary64
     \<lparr>stateActionTransitionFrequency = [(1::nat, 3602879701896397 / 4503599627370496)], stateActionTransitionReward = [(1::nat, 0)],
      greedy = 1, stepSize = 3602879701896397 / 4503599627370496\<rparr> 2 0 =
   Inr \<lparr>stateActionTransitionFrequency = [(1::nat, 720575940379279 / 4503599627370496), (2, 3602879701896397 / 4503599627370496)], stateActionTransitionReward = [(1::nat, 0), (2, 0)],
      greedy = 1, stepSize = 3602879701896397 / 4503599627370496\<rparr>"
  by (simp add: update_def updateFrequency_def updateReward_def map_insert_def map_assign_def
      lowerOthers_def map_index_def map_keys_def Let_def b64_raiseStep1 b64_lowerStep2 b64_lowerStep3 b64_raiseStep4 b64_rewardStep)

lemma b64_update3:
  "update binary64
     \<lparr>stateActionTransitionFrequency = [(1::nat, 720575940379279 / 4503599627370496), (2, 3602879701896397 / 4503599627370496)], stateActionTransitionReward = [(1::nat, 0), (2, 0)],
      greedy = 1, stepSize = 3602879701896397 / 4503599627370496\<rparr> 2 0 =
   Inr \<lparr>stateActionTransitionFrequency = [(1::nat, 576460752303423 / 18014398509481984), (2, 1080863910568919 / 1125899906842624)], stateActionTransitionReward = [(1::nat, 0), (2, 0)],
      greedy = 1, stepSize = 3602879701896397 / 4503599627370496\<rparr>"
  by (simp add: update_def updateFrequency_def updateReward_def map_insert_def map_assign_def
      lowerOthers_def map_index_def map_keys_def Let_def b64_raiseStep1 b64_lowerStep2 b64_lowerStep3 b64_raiseStep4 b64_rewardStep)

lemma b64_run:
  "run binary64
     \<lparr>stateActionTransitionFrequency = [], stateActionTransitionReward = [],
      greedy = 1, stepSize = 3602879701896397 / 4503599627370496\<rparr> [Update (1::nat) 0, Update 2 0, Update 2 0] =
   Inr \<lparr>stateActionTransitionFrequency = [(1::nat, 576460752303423 / 18014398509481984), (2, 1080863910568919 / 1125899906842624)], stateActionTransitionReward = [(1::nat, 0), (2, 0)],
      greedy = 1, stepSize = 3602879701896397 / 4503599627370496\<rparr>"
  by (simp only: run.simps apply_operation.simps bind_result_def sum.case b64_update1 b64_update2 b64_update3)

lemma b64_sum: "sumFrequencies binary64 [(1::nat, 576460752303423 / 18014398509481984), (2, 1080863910568919 / 1125899906842624)] 0 = 1116892707587883 / 1125899906842624"
  by (simp only: sumFrequencies.simps b64_r16 b64_r17)

lemma b64_draw1: "uniform_real_distribution binary64 0 1 0 = 0"
  by (simp only: uniform_real_distribution_def b64_r4 b64_r18 b64_r3)

lemma b64_draw2: "uniform_real_distribution binary64 0 (1116892707587883 / 1125899906842624) (9007199254740991 / 9007199254740992) = 8935141660703063 / 9007199254740992"
  by (simp only: uniform_real_distribution_def b64_r19 b64_r20 b64_r21)

lemma b64_cmp1: "(((8935141660703063 / 9007199254740992) :: real) < (576460752303423 / 18014398509481984)) = False"
  by simp

lemma b64_cmp2: "(((1080863910568919 / 1125899906842624) :: real) < (1080863910568919 / 1125899906842624)) = False"
  by simp

lemma b64_walk: "weightedWalk binary64 [(1::nat, 576460752303423 / 18014398509481984), (2, 1080863910568919 / 1125899906842624)] (8935141660703063 / 9007199254740992) = Inl AssertionFailed"
  by (simp only: weightedWalk.simps b64_cmp1 b64_cmp2 b64_r22 b64_r23 if_False)

lemma b64_stepSize: "binary64 (8 / 10) = 3602879701896397 / 4503599627370496"
  by (rule binary64_eval [where e = "-1" and n = "7205759403792794"])
     (simp_all add: roundTiesToEven_def Let_def power_int_minus)

lemma b64_length: "(length [(1::nat, 576460752303423 / 18014398509481984), (2, 1080863910568919 / 1125899906842624)] = 0) = False"
  by simp

lemma b64_greedy: "((1::real) < 0) = False"
  by simp

lemma b64_getNextState:
  "getNextState binary64
     \<lparr>stateActionTransitionFrequency = [(1::nat, 576460752303423 / 18014398509481984), (2, 1080863910568919 / 1125899906842624)], stateActionTransitionReward = [(1::nat, 0), (2, 0)],
      greedy = 1, stepSize = 3602879701896397 / 4503599627370496\<rparr>
     0 0 (9007199254740991 / 9007199254740992) = Inl AssertionFailed"
  by (simp only: getNextState_def Let_def StateActionTransition.select_convs b64_length b64_greedy
      if_False b64_sum b64_draw1 b64_draw2 b64_walk)

subsection \<open>A run in binary32\<close>

lemma b32_r1: "binary32 (0 - 0) = 0"
  by (simp add: binary32_def roundToPrecision_def)

lemma b32_r2: "binary32 (1 * 0) = 0"
  by (simp add: binary32_def roundToPrecision_def)

lemma b32_r3: "binary32 (0 + 0) = 0"
  by (simp add: binary32_def roundToPrecision_def)

lemma b32_r4: "binary32 (1 - 0) = 1"
  by (rule binary32_eval [where e = "0" and n = "8388608"])
     (simp_all add: roundTiesToEven_def Let_def power_int_minus)

lemma b32_r5: "binary32 ((13421773 / 67108864) * 1) = (13421773 / 67108864)"
  by (rule binary32_eval [where e = "-3" and n = "13421773"])
     (simp_all add: roundTiesToEven_def Let_def power_int_minus)

lemma b32_r6: "binary32 (0 + (13421773 / 67108864)) = (13421773 / 67108864)"
  by (rule binary32_eval [where e = "-3" and n = "13421773"])
     (simp_all add: roundTiesToEven_def Let_def power_int_minus)

lemma b32_r7: "binary32 (0 - (13421773 / 67108864)) = (- (13421773 / 67108864))"
  by (rule binary32_eval [where e = "-3" and n = "-13421773"])
     (simp_all add: roundTiesToEven_def Let_def power_int_minus)

lemma b32_r8: "binary32 ((13421773 / 67108864) * (- (13421773 / 67108864))) = (- (10737419 / 268435456))"
  by (rule binary32_eval [where e = "-5" and n = "-10737419"])
     (simp_all add: roundTiesToEven_def Let_def power_int_minus)

lemma b32_r9: "binary32 ((13421773 / 67108864) + (- (10737419 / 268435456))) = (5368709 / 33554432)"
  by (rule binary32_eval [where e = "-3" and n = "10737418"])
     (simp_all add: roundTiesToEven_def Let_def power_int_minus)

lemma b32_r10: "binary32 (0 - (5368709 / 33554432)) = (- (5368709 / 33554432))"
  by (rule binary32_eval [where e = "-3" and n = "-10737418"])
     (simp_all add: roundTiesToEven_def Let_def power_int_minus)

lemma b32_r11: "binary32 ((13421773 / 67108864) * (- (5368709 / 33554432))) = (- (8589935 / 268435456))"
  by (rule binary32_eval [where e = "-5" and n = "-8589935"])
     (simp_all add: roundTiesToEven_def Let_def power_int_minus)

lemma b32_r12: "binary32 ((5368709 / 33554432) + (- (8589935 / 268435456))) = (4294967 / 33554432)"
  by (rule binary32_eval [where e = "-3" and n = "8589934"])
     (simp_all add: roundTiesToEven_def Let_def power_int_minus)

lemma b32_r13: "binary32 ((13421773 / 67108864) + (5368709 / 33554432)) = (3019899 / 8388608)"
  by (rule binary32_eval [where e = "-2" and n = "12079596"])
     (simp_all add: roundTiesToEven_def Let_def power_int_minus)

lemma b32_r14: "binary32 ((3019899 / 8388608) + (4294967 / 33554432)) = (16374563 / 33554432)"
  by (rule binary32_eval [where e = "-2" and n = "16374563"])
     (simp_all add: roundTiesToEven_def Let_def power_int_minus)

lemma b32_r15: "binary32 (0 * 1) = 0"
  by (simp add: binary32_def roundToPrecision_def)

lemma b32_r16: "binary32 ((16374563 / 33554432) - 0) = (16374563 / 33554432)"
  by (rule binary32_eval [where e = "-2" and n = "16374563"])
     (simp_all add: roundTiesToEven_def Let_def power_int_minus)

lemma b32_r17: "binary32 ((16777215 / 16777216) * (16374563 / 33554432)) = (8187281 / 16777216)"
  by (rule binary32_eval [where e = "-2" and n = "16374562"])
     (simp_all add: roundTiesToEven_def Let_def power_int_minus)

lemma b32_r18: "binary32 ((8187281 / 16777216) + 0) = (8187281 / 16777216)"
  by (rule binary32_eval [where e = "-2" and n = "16374562"])
     (simp_all add: roundTiesToEven_def Let_def power_int_minus)

lemma b32_r19: "binary32 ((8187281 / 16777216) - (13421773 / 67108864)) = (2415919 / 8388608)"
  by (rule binary32_eval [where e = "-2" and n = "9663676"])
     (simp_all add: roundTiesToEven_def Let_def power_int_minus)

lemma b32_r20: "binary32 ((2415919 / 8388608) - (5368709 / 33554432)) = (4294967 / 33554432)"
  by (rule binary32_eval [where e = "-3" and n = "8589934"])
     (simp_all add: roundTiesToEven_def Let_def power_int_minus)

lemma b32_r21: "binary32 ((4294967 / 33554432) - (4294967 / 33554432)) = 0"
  by (simp add: binary32_def roundToPrecision_def)

lemma b32_raiseStep1: "raiseStep binary32 (13421773 / 67108864) 0 = 13421773 / 67108864"
  by (simp only: raiseStep_def b32_r4 b32_r5 b32_r6)

lemma b32_lowerStep2: "lowerStep binary32 (13421773 / 67108864) (13421773 / 67108864) = 5368709 / 33554432"
  by (simp only: lowerStep_def b32_r7 b32_r8 b32_r9)

lemma b32_lowerStep3: "lowerStep binary32 (13421773 / 67108864) (5368709 / 33554432) = 4294967 / 33554432"
  by (simp only: lowerStep_def b32_r10 b32_r11 b32_r12)

lemma b32_rewardStep: "rewardStep binary32 0 0 = 0"
  by (simp only: rewardStep_def b32_r1 b32_r2 b32_r3)

lemma b32_update1:
  "update binary32
     \<lparr>stateActionTransitionFrequency = [], stateActionTransitionReward = [],
      greedy = 1, stepSize = 13421773 / 67108864\<rparr> 3 0 =
   Inr \<lparr>stateActionTransitionFrequency = [(3::nat, 13421773 / 67108864)], stateActionTransitionReward = [(3::nat, 0)],
      greedy = 1, stepSize = 13421773 / 67108864\<rparr>"
  by (simp add: update_def updateFrequency_def updateReward_def map_insert_def map_assign_def
      lowerOthers_def map_index_def map_keys_def Let_def b32_raiseStep1 b32_lowerStep2 b32_lowerStep3 b32_rewardStep)

lemma b32_update2:
  "update binary32
     \<lparr>stateActionTransitionFrequency = [(3::nat, 13421773 / 67108864)], stateActionTransitionReward = [(3::nat, 0)],
      greedy = 1, stepSize = 13421773 / 67108864\<rparr> 2 0 =
   Inr \<lparr>stateActionTransitionFrequency = [(2::nat, 13421773 / 67108864), (3, 5368709 / 33554432)], stateActionTransitionReward = [(2::nat, 0), (3, 0)],
      greedy = 1, stepSize = 13421773 / 67108864\<rparr>"
  by (simp add: update_def updateFrequency_def updateReward_def map_insert_def map_assign_def
      lowerOthers_def map_index_def map_keys_def Let_def b32_raiseStep1 b32_lowerStep2 b32_lowerStep3 b32_rewardStep)

lemma b32_update3:
  "update binary32
     \<lparr>stateActionTransitionFrequency = [(2::nat, 13421773 / 67108864), (3, 5368709 / 33554432)], stateActionTransitionReward = [(2::nat, 0), (3, 0)],
      greedy = 1, stepSize = 13421773 / 67108864\<rparr> 1 0 =
   Inr \<lparr>stateActionTransitionFrequency = [(1::nat, 13421773 / 67108864), (2, 5368709 / 33554432), (3, 4294967 / 33554432)], stateActionTransitionReward = [(1::nat, 0), (2, 0), (3, 0)],
      greedy = 1, stepSize = 13421773 / 67108864\<rparr>"
  by (simp add: update_def updateFrequency_def updateReward_def map_insert_def map_assign_def
      lowerOthers_def map_index_def map_keys_def Let_def b32_raiseStep1 b32_lowerStep2 b32_lowerStep3 b32_rewardStep)

lemma b32_run:
  "run binary32
     \<lparr>stateActionTransitionFrequency = [], stateActionTransitionReward = [],
      greedy = 1, stepSize = 13421773 / 67108864\<rparr> [Update (3::nat) 0, Update 2 0, Update 1 0] =
   Inr \<lparr>stateActionTransitionFrequency = [(1::nat, 13421773 / 67108864), (2, 5368709 / 33554432), (3, 4294967 / 33554432)], stateActionTransitionReward = [(1::nat, 0), (2, 0), (3, 0)],
      greedy = 1, stepSize = 13421773 / 67108864\<rparr>"
  by (simp only: run.simps apply_operation.simps bind_result_def sum.case b32_update1 b32_update2 b32_update3)

lemma b32_sum: "sumFrequencies binary32 [(1::nat, 13421773 / 67108864), (2, 5368709 / 33554432), (3, 4294967 / 33554432)] 0 = 16374563 / 33554432"
  by (simp only: sumFrequencies.simps b32_r6 b32_r13 b32_r14)

lemma b32_draw1: "uniform_real_distribution binary32 0 1 0 = 0"
  by (simp only: uniform_real_distribution_def b32_r4 b32_r15 b32_r3)

lemma b32_draw2: "uniform_real_distribution binary32 0 (16374563 / 33554432) (16777215 / 16777216) = 8187281 / 16777216"
  by (simp only: uniform_real_distribution_def b32_r16 b32_r17 b32_r18)

lemma b32_cmp1: "(((8187281 / 16777216) :: real) < (13421773 / 67108864)) = False"
  by simp

lemma b32_cmp2: "(((2415919 / 8388608) :: real) < (5368709 / 33554432)) = False"
  by simp

lemma b32_cmp3: "(((4294967 / 33554432) :: real) < (4294967 / 33554432)) = False"
  by simp

lemma b32_walk: "weightedWalk binary32 [(1::nat, 13421773 / 67108864), (2, 5368709 / 33554432), (3, 4294967 / 33554432)] (8187281 / 16777216) = Inl AssertionFailed"
  by (simp only: weightedWalk.simps b32_cmp1 b32_cmp2 b32_cmp3 b32_r19 b32_r20 b32_r21 if_False)

lemma b32_stepSize: "binary32 (2 / 10) = 13421773 / 67108864"
  by (rule binary32_eval [where e = "-3" and n = "13421773"])
     (simp_all add: roundTiesToEven_def Let_def power_int_minus)

lemma b32_length: "(length [(1::nat, 13421773 / 67108864), (2, 5368709 / 33554432), (3, 4294967 / 33554432)] = 0) = False"
  by simp

lemma b32_greedy: "((1::real) < 0) = False"
  by simp

lemma b32_getNextState:
  "getNextState binary32
     \<lparr>stateActionTransitionFrequency = [(1::nat, 13421773 / 67108864), (2, 5368709 / 33554432), (3, 4294967 / 33554432)], stateActionTransitionReward = [(1::nat, 0), (2, 0), (3, 0)],
      greedy = 1, stepSize = 13421773 / 67108864\<rparr>
     0 0 (16777215 / 16777216) = Inl AssertionFailed"
  by (simp only: getNextState_def Let_def StateActionTransition.select_convs b32_length b32_greedy
      if_False b32_sum b32_draw1 b32_draw2 b32_walk)

text \<open>
  Claim C5, at an input where the code leaves it. An empty model throws the exception, and
  in exact arithmetic the walk always returns a key (\<open>getNextState_total_exact\<close>). In the
  arithmetic of \<^verbatim>\<open>rl::FLOAT\<close> it does not: with greediness \<open>1\<close> and step size \<open>0.8\<close> in
  binary64, after \<^verbatim>\<open>update(1, 0)\<close>, \<^verbatim>\<open>update(2, 0)\<close>, \<^verbatim>\<open>update(2, 0)\<close> the sum of the two
  frequencies rounds up; for the largest canonical draw \<open>1 - 2^(-53)\<close> the remainder after the
  first key rounds to exactly the second frequency, the strict comparison fails, and the
  walk reaches \<^verbatim>\<open>assert(false)\<close>. The same happens in binary32 with step size \<open>0.2\<close>,
  updates of the states \<open>3, 2, 1\<close> and the draw \<open>1 - 2^(-24)\<close>.
\<close>

theorem getNextState_reaches_assert:
  "bind_result (StateActionTransition_init 1 (binary64 (8 / 10))) (\<lambda>m0.
     bind_result (run binary64 m0 [Update (1::nat) 0, Update 2 0, Update 2 0]) (\<lambda>m.
       getNextState binary64 m 0 0 (9007199254740991 / 9007199254740992))) = Inl AssertionFailed \<and>
   bind_result (StateActionTransition_init 1 (binary32 (2 / 10))) (\<lambda>m0.
     bind_result (run binary32 m0 [Update (3::nat) 0, Update 2 0, Update 1 0]) (\<lambda>m.
       getNextState binary32 m 0 0 (16777215 / 16777216))) = Inl AssertionFailed"
  by (simp only: b64_stepSize b32_stepSize StateActionTransition_init_def bind_result_def sum.case
      b64_run b32_run b64_getNextState b32_getNextState simp_thms)

section \<open>Evaluating the tile coder\<close>

lemma wrap_id: "n < 2 ^ bits \<Longrightarrow> wrap bits n = n"
  by (simp add: wrap_def)

text \<open>
  The language grants \<^verbatim>\<open>int\<close> and \<^verbatim>\<open>size_t\<close> sixteen bits at least. Numbers that fit sixteen
  bits are left alone by the integer types of every platform.
\<close>

lemma wrap_small:
  assumes "16 \<le> bits" "n < 65536"
  shows "wrap bits n = n"
proof -
  have "(2::nat) ^ 16 \<le> 2 ^ bits" using assms(1) by (intro power_increasing) simp_all
  then have "n < 2 ^ bits" using assms(2) by simp
  then show ?thesis by (rule wrap_id)
qed

lemma toSigned_small:
  assumes "16 \<le> bits" "n < 32768"
  shows "toSigned bits n = int n"
proof -
  have "(2::nat) ^ 15 \<le> 2 ^ (bits - 1)" using assms(1) by (intro power_increasing) simp_all
  then have "n < 2 ^ (bits - 1)" using assms(2) by simp
  then show ?thesis by (simp add: toSigned_def)
qed

lemma withinSizeCache_small:
  assumes "16 \<le> intBits pf" "16 \<le> sizeBits pf" "h < 32768"
  shows "withinSizeCache pf h size0 = (h \<le> size0)"
proof -
  have s: "toSigned (intBits pf) h = int h" using assms(1,3) by (rule toSigned_small)
  have "(2::nat) ^ 16 \<le> 2 ^ sizeBits pf" using assms(2) by (intro power_increasing) simp_all
  then have "h < 2 ^ sizeBits pf" using assms(3) by simp
  then have "int h < 2 ^ sizeBits pf" by (metis of_nat_less_iff of_nat_numeral of_nat_power)
  then have "int h mod 2 ^ sizeBits pf = int h" by simp
  then show ?thesis by (simp add: withinSizeCache_def s)
qed

lemma float_to_size_small:
  assumes "16 \<le> sizeBits pf" "- 1 < v" "v < 65536"
  shows "float_to_size pf v = Inr (nat \<lfloor>v\<rfloor>)"
proof -
  have "(2::real) ^ 16 \<le> 2 ^ sizeBits pf" using assms(1) by (intro power_increasing) simp_all
  then have "v < 2 ^ sizeBits pf" using assms(3) by simp
  then show ?thesis using assms(2) by (simp add: float_to_size_def)
qed

lemmas tile_defs = DimensionInfo_init_def DimensionInfo_init3_def TileCode_init_def TileCode_init_hint_def
  calculateSize_def GetGridCountReal_def GetOffsets_def GetRangeDifference_def getGeneralizationScale_def
  getLowerBound_def GetGridCountIdeal_def getFeatureVector_def tilingHashedIndex_def paramToGridValue_def
  vector_at_def uniform_real_distribution_def bind_result_def Let_def TileCode_getSize_def
  wrap_small withinSizeCache_small float_to_size_small

lemma upt_one: "[0..<1] = [0]"
  by (simp add: upt_rec)

section \<open>The mixed-radix index of TileCodeCorrect\<close>

lemma withinGrid_length: "withinGrid pf dims gs \<Longrightarrow> length gs = length dims"
proof (induction dims arbitrary: gs)
  case Nil
  then show ?case by (cases gs) simp_all
next
  case (Cons di dims)
  then show ?case by (cases gs) simp_all
qed

lemma withinGrid_iff:
  "withinGrid pf dims gs \<longleftrightarrow>
     length gs = length dims \<and> (\<forall>d < length dims. gs ! d < GetGridCountReal pf (dims ! d))"
proof (induction dims arbitrary: gs)
  case Nil
  show ?case by (cases gs) simp_all
next
  case (Cons di dims)
  show ?case
  proof (cases gs)
    case Nil
    then show ?thesis by simp
  next
    case (Cons g rest)
    have "(\<forall>d < length (di # dims). (g # rest) ! d < GetGridCountReal pf ((di # dims) ! d)) \<longleftrightarrow>
        g < GetGridCountReal pf di \<and> (\<forall>d < length dims. rest ! d < GetGridCountReal pf (dims ! d))"
      by (simp add: All_less_Suc2)
    then show ?thesis using Cons.IH [of rest] by (auto simp: Cons)
  qed
qed

lemma withinGrid_positive:
  "withinGrid pf dims gs \<Longrightarrow> 0 < prod_list (map (GetGridCountReal pf) dims)"
proof (induction dims arbitrary: gs)
  case Nil
  show ?case by simp
next
  case (Cons di dims)
  obtain g rest where gs: "gs = g # rest" using Cons.prems by (cases gs) simp_all
  have "g < GetGridCountReal pf di" "withinGrid pf dims rest" using Cons.prems by (simp_all add: gs)
  then show ?case using Cons.IH [of rest] by simp
qed

lemma calculateSizeLoop_eq:
  assumes "0 < prod_list (map (GetGridCountReal pf) dims)"
    and "size0 * prod_list (map (GetGridCountReal pf) dims) < 2 ^ sizeBits pf"
  shows "calculateSizeLoop pf dims size0 = size0 * prod_list (map (GetGridCountReal pf) dims)"
  using assms
proof (induction dims arbitrary: size0)
  case Nil
  show ?case by simp
next
  case (Cons di dims)
  let ?R = "GetGridCountReal pf di"
  let ?P = "prod_list (map (GetGridCountReal pf) dims)"
  have pos: "0 < ?P" using Cons.prems(1) by simp
  have bound: "size0 * ?R * ?P < 2 ^ sizeBits pf" using Cons.prems(2) by (simp add: mult.assoc)
  have "size0 * ?R \<le> size0 * ?R * ?P" using pos by simp
  then have "size0 * ?R < 2 ^ sizeBits pf" using bound by (rule le_less_trans)
  then have "wrap (sizeBits pf) (size0 * ?R) = size0 * ?R" by (rule wrap_id)
  then show ?case using Cons.IH [OF pos bound] by (simp add: mult.assoc)
qed

lemma calculateSize_eq:
  assumes "0 < prod_list (map (GetGridCountReal pf) dims)"
    and "numTilings * prod_list (map (GetGridCountReal pf) dims) < 2 ^ sizeBits pf"
  shows "calculateSize pf numTilings dims = prod_list (map (GetGridCountReal pf) dims) * numTilings"
proof (cases "numTilings = 0")
  case True
  then show ?thesis by (simp add: calculateSize_def wrap_def)
next
  case False
  let ?P = "prod_list (map (GetGridCountReal pf) dims)"
  have "?P \<le> numTilings * ?P" using False by simp
  then have "?P < 2 ^ sizeBits pf" using assms(2) by (rule le_less_trans)
  then have "1 * ?P < 2 ^ sizeBits pf" by simp
  then have "calculateSizeLoop pf dims 1 = 1 * ?P" using assms(1) by (intro calculateSizeLoop_eq)
  then show ?thesis using assms(2) by (simp add: calculateSize_def wrap_id mult.commute)
qed

lemma hashedIndexLoop_eq:
  assumes "withinGrid pf dims gs" and "\<forall>d < length dims. grid (j + d) = Inr (gs ! d)"
    and "hashedIndex + mult * prod_list (map (GetGridCountReal pf) dims) < 2 ^ intBits pf + mult"
    and "mult * prod_list (map (GetGridCountReal pf) dims) < 2 ^ intBits pf"
  shows "hashedIndexLoop pf grid dims j hashedIndex mult =
           Inr (hashedIndex + mult * mixedRadix pf dims gs,
                mult * prod_list (map (GetGridCountReal pf) dims))"
  using assms
proof (induction dims arbitrary: gs j hashedIndex mult)
  case Nil
  then show ?case by (cases gs) simp_all
next
  case (Cons di dims)
  let ?R = "GetGridCountReal pf di"
  let ?P = "prod_list (map (GetGridCountReal pf) dims)"
  let ?M = "2 ^ intBits pf :: nat"
  obtain g gs' where gs: "gs = g # gs'" using Cons.prems(1) by (cases gs) simp_all
  have g: "g < ?R" and wg: "withinGrid pf dims gs'" using Cons.prems(1) by (simp_all add: gs)
  have pos: "0 < ?P" using wg by (rule withinGrid_positive)
  have head: "grid j = Inr g" using Cons.prems(2) gs by auto
  have rest: "\<forall>d < length dims. grid (Suc j + d) = Inr (gs' ! d)"
  proof (intro allI impI)
    fix d assume "d < length dims"
    then have "grid (j + Suc d) = Inr (gs ! Suc d)" using Cons.prems(2) by auto
    then show "grid (Suc j + d) = Inr (gs' ! d)" by (simp add: gs)
  qed
  have b1: "hashedIndex + mult * (?R * ?P) < ?M + mult" using Cons.prems(3) by simp
  have b2: "mult * (?R * ?P) < ?M" using Cons.prems(4) by simp
  have step: "Suc g * mult \<le> ?R * mult" using g by (intro mult_le_mono1) simp
  have grow: "?R * mult \<le> ?R * mult * ?P" using pos by simp
  have eq: "mult * (?R * ?P) = ?R * mult * ?P" by (simp add: mult_ac)
  have "Suc g * mult \<le> mult * (?R * ?P)"
    unfolding eq using step grow by (rule le_trans)
  then have "hashedIndex + g * mult + mult \<le> hashedIndex + mult * (?R * ?P)" by simp
  then have h_ok: "hashedIndex + g * mult < ?M" using b1 by linarith
  have "mult * ?R \<le> mult * (?R * ?P)" unfolding eq using grow by (simp add: mult.commute)
  then have m_ok: "mult * ?R < ?M" using b2 by (rule le_less_trans)
  have i1: "(hashedIndex + g * mult) + (mult * ?R) * ?P < ?M + mult * ?R"
  proof -
    have "(hashedIndex + g * mult) + (mult * ?R) * ?P = hashedIndex + mult * (?R * ?P) + g * mult"
      by (simp add: mult_ac)
    also have "\<dots> < ?M + mult + g * mult" using b1 by simp
    also have "\<dots> = ?M + Suc g * mult" by simp
    also have "\<dots> \<le> ?M + mult * ?R" using step by (simp add: mult.commute)
    finally show ?thesis .
  qed
  have i2: "(mult * ?R) * ?P < ?M" using b2 by (simp add: mult_ac)
  have "hashedIndexLoop pf grid (di # dims) j hashedIndex mult =
        hashedIndexLoop pf grid dims (Suc j) (hashedIndex + g * mult) (mult * ?R)"
    by (simp add: head bind_result_def wrap_id [OF h_ok] wrap_id [OF m_ok])
  also have "\<dots> = Inr (hashedIndex + g * mult + mult * ?R * mixedRadix pf dims gs', mult * ?R * ?P)"
    using wg rest i1 i2 by (rule Cons.IH)
  finally show ?case by (simp add: gs algebra_simps)
qed

lemma mixedRadix_less:
  "withinGrid pf dims gs \<Longrightarrow> mixedRadix pf dims gs < prod_list (map (GetGridCountReal pf) dims)"
proof (induction dims arbitrary: gs)
  case Nil
  then show ?case by (cases gs) simp_all
next
  case (Cons di dims)
  let ?R = "GetGridCountReal pf di"
  let ?P = "prod_list (map (GetGridCountReal pf) dims)"
  obtain g r where gs: "gs = g # r" using Cons.prems by (cases gs) simp_all
  have g: "g < ?R" and wg: "withinGrid pf dims r" using Cons.prems by (simp_all add: gs)
  have m: "mixedRadix pf dims r < ?P" using wg by (rule Cons.IH)
  have "Suc (mixedRadix pf dims r) \<le> ?P" using m by simp
  then have "?R * Suc (mixedRadix pf dims r) \<le> ?R * ?P" by (rule mult_le_mono2)
  moreover have "g + ?R * mixedRadix pf dims r < ?R * Suc (mixedRadix pf dims r)" using g by simp
  ultimately show ?case by (simp add: gs)
qed

lemma radix_step_inj:
  fixes g g' m m' R :: nat
  assumes "g < R" "g' < R" "g + R * m = g' + R * m'"
  shows "g = g' \<and> m = m'"
proof -
  have "(g + R * m) mod R = (g' + R * m') mod R" using assms(3) by simp
  then have gg: "g = g'" using assms(1,2) by simp
  then have "R * m = R * m'" using assms(3) by simp
  then have "m = m'" using assms(1) by simp
  then show ?thesis using gg by simp
qed

lemma mixedRadix_inj:
  "withinGrid pf dims gs \<Longrightarrow> withinGrid pf dims gs' \<Longrightarrow>
     mixedRadix pf dims gs = mixedRadix pf dims gs' \<Longrightarrow> gs = gs'"
proof (induction dims arbitrary: gs gs')
  case Nil
  then show ?case by (cases gs; cases gs') simp_all
next
  case (Cons di dims)
  obtain g r where gs: "gs = g # r" using Cons.prems(1) by (cases gs) simp_all
  obtain g' r' where gs': "gs' = g' # r'" using Cons.prems(2) by (cases gs') simp_all
  have b: "g < GetGridCountReal pf di" "g' < GetGridCountReal pf di"
      "withinGrid pf dims r" "withinGrid pf dims r'"
    using Cons.prems(1,2) by (simp_all add: gs gs')
  have "g + GetGridCountReal pf di * mixedRadix pf dims r =
        g' + GetGridCountReal pf di * mixedRadix pf dims r'"
    using Cons.prems(3) by (simp add: gs gs')
  then have "g = g' \<and> mixedRadix pf dims r = mixedRadix pf dims r'"
    using b(1,2) by (intro radix_step_inj)
  then show ?case using Cons.IH [OF b(3,4)] by (simp add: gs gs')
qed

lemma radix_top_less:
  fixes v P t K :: nat
  assumes "v < P" "t < K"
  shows "v + P * t < P * K"
proof -
  have "v + P * t < P * Suc t" using assms(1) by simp
  also have "\<dots> \<le> P * K" using assms(2) by (intro mult_le_mono2) simp
  finally show ?thesis .
qed

lemma tilingHashedIndex_grid_eq:
  assumes wg: "withinGrid pf dims gs" and grid: "\<forall>d < length dims. grid d = Inr (gs ! d)"
    and t: "t < numTilings"
    and fits: "numTilings * prod_list (map (GetGridCountReal pf) dims) < 2 ^ intBits pf"
  shows "tilingHashedIndex pf grid dims t =
           Inr (mixedRadix pf dims gs + prod_list (map (GetGridCountReal pf) dims) * t)"
proof -
  let ?P = "prod_list (map (GetGridCountReal pf) dims)"
  have grid0: "\<forall>d < length dims. grid (0 + d) = Inr (gs ! d)" using grid by simp
  have v: "mixedRadix pf dims gs < ?P" using wg by (rule mixedRadix_less)
  then have top: "mixedRadix pf dims gs + ?P * t < ?P * numTilings" using t by (rule radix_top_less)
  then have idx: "mixedRadix pf dims gs + ?P * t < 2 ^ intBits pf"
    using fits by (simp add: mult.commute)
  have "?P \<le> numTilings * ?P" using t by simp
  then have P: "?P < 2 ^ intBits pf" using fits by (rule le_less_trans)
  have "hashedIndexLoop pf grid dims 0 0 1 = Inr (0 + 1 * mixedRadix pf dims gs, 1 * ?P)"
    using wg grid0 P by (intro hashedIndexLoop_eq) simp_all
  then show ?thesis by (simp add: tilingHashedIndex_def bind_result_def wrap_id [OF idx])
qed

lemma tilingHashedIndex_eq:
  assumes wg: "withinGrid pf dims gs" and t: "t < numTilings"
    and fits: "numTilings * prod_list (map (GetGridCountReal pf) dims) < 2 ^ intBits pf"
  shows "tilingHashedIndex pf (vector_at gs) dims t =
           Inr (mixedRadix pf dims gs + prod_list (map (GetGridCountReal pf) dims) * t)"
proof -
  have len: "length gs = length dims" using wg by (rule withinGrid_length)
  then have grid: "\<forall>d < length dims. vector_at gs d = Inr (gs ! d)"
    by (simp add: vector_at_def)
  show ?thesis using wg grid t fits by (rule tilingHashedIndex_grid_eq)
qed

text \<open>
  Claim C3 as stated fails where the size does not fit the integer types. Three dimensions of
  grid count \<open>4194303\<close> have the real grid count \<open>2^22\<close> each, so \<open>W\<close> would be \<open>2^66\<close>: with
  a \<^verbatim>\<open>size_t\<close> of 64 bits \<^verbatim>\<open>_calculateSize\<close> returns \<open>0\<close>, and the distinct tuples \<open>(0, 0, 0)\<close>
  and \<open>(0, 0, 1048576)\<close>, both within the grid, get the same index \<open>0\<close> of tiling \<open>0\<close>, whether
  \<^verbatim>\<open>rl::INT\<close> has 64 or 32 bits.
\<close>

theorem mixed_radix_index_counterexample:
  "tilingHashedIndex \<lparr>intBits = 64, sizeBits = 64\<rparr> (vector_at [0, 0, 0])
      [\<lparr>rangePair = (0, 1), gridCountIdeal = 4194303, generalizationScale = 1\<rparr>,
       \<lparr>rangePair = (0, 1), gridCountIdeal = 4194303, generalizationScale = 1\<rparr>,
       \<lparr>rangePair = (0, 1), gridCountIdeal = 4194303, generalizationScale = 1\<rparr>] 0 = Inr 0 \<and>
   tilingHashedIndex \<lparr>intBits = 64, sizeBits = 64\<rparr> (vector_at [0, 0, 1048576])
      [\<lparr>rangePair = (0, 1), gridCountIdeal = 4194303, generalizationScale = 1\<rparr>,
       \<lparr>rangePair = (0, 1), gridCountIdeal = 4194303, generalizationScale = 1\<rparr>,
       \<lparr>rangePair = (0, 1), gridCountIdeal = 4194303, generalizationScale = 1\<rparr>] 0 = Inr 0 \<and>
   tilingHashedIndex \<lparr>intBits = 32, sizeBits = 64\<rparr> (vector_at [0, 0, 0])
      [\<lparr>rangePair = (0, 1), gridCountIdeal = 4194303, generalizationScale = 1\<rparr>,
       \<lparr>rangePair = (0, 1), gridCountIdeal = 4194303, generalizationScale = 1\<rparr>,
       \<lparr>rangePair = (0, 1), gridCountIdeal = 4194303, generalizationScale = 1\<rparr>] 0 = Inr 0 \<and>
   tilingHashedIndex \<lparr>intBits = 32, sizeBits = 64\<rparr> (vector_at [0, 0, 1048576])
      [\<lparr>rangePair = (0, 1), gridCountIdeal = 4194303, generalizationScale = 1\<rparr>,
       \<lparr>rangePair = (0, 1), gridCountIdeal = 4194303, generalizationScale = 1\<rparr>,
       \<lparr>rangePair = (0, 1), gridCountIdeal = 4194303, generalizationScale = 1\<rparr>] 0 = Inr 0 \<and>
   GetGridCountReal \<lparr>intBits = 64, sizeBits = 64\<rparr>
      \<lparr>rangePair = (0, 1), gridCountIdeal = 4194303, generalizationScale = 1\<rparr> = 4194304 \<and>
   GetGridCountReal \<lparr>intBits = 32, sizeBits = 64\<rparr>
      \<lparr>rangePair = (0, 1), gridCountIdeal = 4194303, generalizationScale = 1\<rparr> = 4194304 \<and>
   calculateSize \<lparr>intBits = 64, sizeBits = 64\<rparr> 1
      [\<lparr>rangePair = (0, 1), gridCountIdeal = 4194303, generalizationScale = 1\<rparr>,
       \<lparr>rangePair = (0, 1), gridCountIdeal = 4194303, generalizationScale = 1\<rparr>,
       \<lparr>rangePair = (0, 1), gridCountIdeal = 4194303, generalizationScale = 1\<rparr>] = 0 \<and>
   calculateSize \<lparr>intBits = 32, sizeBits = 64\<rparr> 1
      [\<lparr>rangePair = (0, 1), gridCountIdeal = 4194303, generalizationScale = 1\<rparr>,
       \<lparr>rangePair = (0, 1), gridCountIdeal = 4194303, generalizationScale = 1\<rparr>,
       \<lparr>rangePair = (0, 1), gridCountIdeal = 4194303, generalizationScale = 1\<rparr>] = 0"
  by (simp add: tilingHashedIndex_def vector_at_def bind_result_def GetGridCountReal_def wrap_def
      calculateSize_def)

text \<open>
  Claim C3, amended. Let \<open>W\<close>, the product of \<^verbatim>\<open>NUM_TILINGS\<close> and the real grid counts, be
  below \<open>2^(intBits - 1)\<close> and below \<open>2^sizeBits\<close>: it fits \<^verbatim>\<open>rl::INT\<close> and \<^verbatim>\<open>size_t\<close>. Let
  \<open>gs\<close> and \<open>gs'\<close> be tuples of grid coordinates, one per dimension, each coordinate below the
  real grid count of its dimension, and let \<open>t\<close>, \<open>t'\<close> be tiling numbers below
  \<^verbatim>\<open>NUM_TILINGS\<close>. The index the loops of \<^verbatim>\<open>getFeatureVector\<close> assemble from each is below
  the size \<^verbatim>\<open>_calculateSize\<close> computes, which is \<open>W\<close>, and the two indices differ when the
  tuples \<open>(gs, t)\<close> and \<open>(gs', t')\<close> differ.
\<close>

theorem mixed_radix_index_injective:
  assumes "length gs = length dims" "\<forall>d < length dims. gs ! d < GetGridCountReal pf (dims ! d)"
    and "length gs' = length dims" "\<forall>d < length dims. gs' ! d < GetGridCountReal pf (dims ! d)"
    and "t < numTilings" "t' < numTilings"
    and "numTilings * prod_list (map (GetGridCountReal pf) dims) < 2 ^ (intBits pf - 1)"
    and "numTilings * prod_list (map (GetGridCountReal pf) dims) < 2 ^ sizeBits pf"
  shows "\<exists>idx idx'. tilingHashedIndex pf (vector_at gs) dims t = Inr idx \<and>
           tilingHashedIndex pf (vector_at gs') dims t' = Inr idx' \<and>
           calculateSize pf numTilings dims =
             numTilings * prod_list (map (GetGridCountReal pf) dims) \<and>
           idx < calculateSize pf numTilings dims \<and> idx' < calculateSize pf numTilings dims \<and>
           ((gs, t) \<noteq> (gs', t') \<longrightarrow> idx \<noteq> idx')"
proof -
  let ?P = "prod_list (map (GetGridCountReal pf) dims)"
  have wg: "withinGrid pf dims gs" "withinGrid pf dims gs'"
    using assms(1-4) by (simp_all add: withinGrid_iff)
  have "(2::nat) ^ (intBits pf - 1) \<le> 2 ^ intBits pf" by (intro power_increasing) simp_all
  with assms(7) have fits: "numTilings * ?P < 2 ^ intBits pf" by (rule less_le_trans)
  have pos: "0 < ?P" using wg(1) by (rule withinGrid_positive)
  have v: "mixedRadix pf dims gs < ?P" "mixedRadix pf dims gs' < ?P"
    using wg by (simp_all add: mixedRadix_less)
  have i1: "tilingHashedIndex pf (vector_at gs) dims t = Inr (mixedRadix pf dims gs + ?P * t)"
    using wg(1) assms(5) fits by (rule tilingHashedIndex_eq)
  have i2: "tilingHashedIndex pf (vector_at gs') dims t' = Inr (mixedRadix pf dims gs' + ?P * t')"
    using wg(2) assms(6) fits by (rule tilingHashedIndex_eq)
  have size: "calculateSize pf numTilings dims = ?P * numTilings"
    using pos assms(8) by (rule calculateSize_eq)
  have b1: "mixedRadix pf dims gs + ?P * t < calculateSize pf numTilings dims"
    unfolding size using v(1) assms(5) by (rule radix_top_less)
  have b2: "mixedRadix pf dims gs' + ?P * t' < calculateSize pf numTilings dims"
    unfolding size using v(2) assms(6) by (rule radix_top_less)
  have inj: "(gs, t) = (gs', t')"
    if eq: "mixedRadix pf dims gs + ?P * t = mixedRadix pf dims gs' + ?P * t'"
  proof -
    have "mixedRadix pf dims gs = mixedRadix pf dims gs' \<and> t = t'"
      using v eq by (intro radix_step_inj)
    then show ?thesis using mixedRadix_inj [OF wg] by simp
  qed
  show ?thesis using i1 i2 b1 b2 inj size by (auto simp: mult.commute)
qed

theorem mixed_radix_index_injective_witness:
  "tilingHashedIndex \<lparr>intBits = 32, sizeBits = 64\<rparr> (vector_at [10, 4])
      [\<lparr>rangePair = (0, 1), gridCountIdeal = 10, generalizationScale = 1\<rparr>,
       \<lparr>rangePair = (0, 1), gridCountIdeal = 4, generalizationScale = 1\<rparr>] 1 = Inr 109 \<and>
   tilingHashedIndex \<lparr>intBits = 32, sizeBits = 64\<rparr> (vector_at [0, 0])
      [\<lparr>rangePair = (0, 1), gridCountIdeal = 10, generalizationScale = 1\<rparr>,
       \<lparr>rangePair = (0, 1), gridCountIdeal = 4, generalizationScale = 1\<rparr>] 0 = Inr 0 \<and>
   calculateSize \<lparr>intBits = 32, sizeBits = 64\<rparr> 2
      [\<lparr>rangePair = (0, 1), gridCountIdeal = 10, generalizationScale = 1\<rparr>,
       \<lparr>rangePair = (0, 1), gridCountIdeal = 4, generalizationScale = 1\<rparr>] = 110"
proof -
  let ?pf = "\<lparr>intBits = 32, sizeBits = 64\<rparr>"
  let ?dims = "[\<lparr>rangePair = (0, 1), gridCountIdeal = 10, generalizationScale = 1\<rparr>,
       \<lparr>rangePair = (0, 1), gridCountIdeal = 4, generalizationScale = 1\<rparr>]"
  have size: "calculateSize ?pf 2 ?dims = 110"
    by (simp add: calculateSize_def GetGridCountReal_def wrap_def)
  have "\<exists>idx idx'. tilingHashedIndex ?pf (vector_at [10, 4]) ?dims 1 = Inr idx \<and>
           tilingHashedIndex ?pf (vector_at [0, 0]) ?dims 0 = Inr idx' \<and>
           calculateSize ?pf 2 ?dims = 2 * prod_list (map (GetGridCountReal ?pf) ?dims) \<and>
           idx < calculateSize ?pf 2 ?dims \<and> idx' < calculateSize ?pf 2 ?dims \<and>
           (([10::nat, 4], 1::nat) \<noteq> ([0::nat, 0], 0::nat) \<longrightarrow> idx \<noteq> idx')"
    by (rule mixed_radix_index_injective)
       (simp_all add: GetGridCountReal_def wrap_def All_less_Suc)
  then obtain idx idx' where r: "tilingHashedIndex ?pf (vector_at [10, 4]) ?dims 1 = Inr idx"
      "tilingHashedIndex ?pf (vector_at [0, 0]) ?dims 0 = Inr idx'" "idx \<noteq> idx'"
      "idx < calculateSize ?pf 2 ?dims"
    by auto
  have "tilingHashedIndex ?pf (vector_at [10, 4]) ?dims 1 = Inr 109"
       "tilingHashedIndex ?pf (vector_at [0, 0]) ?dims 0 = Inr 0"
    by (simp_all add: tilingHashedIndex_def vector_at_def bind_result_def GetGridCountReal_def
        wrap_def)
  then show ?thesis using r size by simp
qed

section \<open>Where the feature indices do stay below the size\<close>

text \<open>
  The shift of a tiling is \<open>draw * offset * scale\<close> and \<^verbatim>\<open>paramToGridValue\<close> multiplies it with
  the scale once more. While the square of the scale is at most one the shift stays within one
  grid cell and the grid value stays below the real grid count. While, moreover, the size fits
  \<^verbatim>\<open>rl::INT\<close> and \<^verbatim>\<open>size_t\<close>, the indices are below the size. The arithmetic of \<^verbatim>\<open>rl::FLOAT\<close>
  is exact here.
\<close>

lemma grid_value_bound:
  fixes x lo hi u s :: real and n :: nat
  assumes "lo < hi" "0 < n" "lo \<le> x" "x \<le> hi" "0 \<le> u" "u < 1" "s * s \<le> 1"
  shows "0 \<le> ((x + (u * (\<bar>lo - hi\<bar> / real n) * s) * s - lo) * real n) / \<bar>lo - hi\<bar>"
    and "((x + (u * (\<bar>lo - hi\<bar> / real n) * s) * s - lo) * real n) / \<bar>lo - hi\<bar> < real n + 1"
proof -
  let ?r = "\<bar>lo - hi\<bar>"
  have r: "?r = hi - lo" "0 < hi - lo" using assms(1) by simp_all
  have n: "0 < real n" using assms(2) by simp
  have ss: "0 \<le> s * s" by simp
  have expand: "((x + (u * (?r / real n) * s) * s - lo) * real n) / ?r =
      (x - lo) * real n / (hi - lo) + u * (s * s)"
    using r(2) n by (simp add: r(1) field_simps)
  have a: "0 \<le> (x - lo) * real n / (hi - lo)" using assms(3) r(2) by simp
  have "(x - lo) * real n \<le> (hi - lo) * real n"
    using assms(4) by (intro mult_right_mono) simp_all
  then have b: "(x - lo) * real n / (hi - lo) \<le> real n"
    using r(2) by (simp add: field_simps)
  have c: "0 \<le> u * (s * s)" using assms(5) ss by simp
  have "u * (s * s) \<le> u * 1" using assms(5,7) by (intro mult_left_mono) simp_all
  then have d: "u * (s * s) < 1" using assms(6) by simp
  show "0 \<le> ((x + (u * (?r / real n) * s) * s - lo) * real n) / ?r"
    unfolding expand using a c by simp
  show "((x + (u * (?r / real n) * s) * s - lo) * real n) / ?r < real n + 1"
    unfolding expand using b d by simp
qed

lemma float_to_size_bound:
  assumes "0 \<le> v" "v < real n + 1" "n + 1 \<le> 2 ^ sizeBits pf"
  shows "\<exists>g. float_to_size pf v = Inr g \<and> g < n + 1"
proof -
  have "v < of_int (int n + 1)" using assms(2) by simp
  then have "\<lfloor>v\<rfloor> < int n + 1" by (rule iffD2 [OF floor_less_iff])
  moreover have "0 \<le> \<lfloor>v\<rfloor>" using assms(1) by simp
  ultimately have g: "nat \<lfloor>v\<rfloor> < n + 1" by linarith
  have "real (n + 1) \<le> real (2 ^ sizeBits pf)" using assms(3) by (rule iffD2 [OF of_nat_le_iff])
  then have "real n + 1 \<le> 2 ^ sizeBits pf" by simp
  then have "v < 2 ^ sizeBits pf" using assms(2) by simp
  then show ?thesis using assms(1) g by (simp add: float_to_size_def)
qed

lemma paramToGridValue_bound:
  assumes tc: "TileCode_init pf numTilings dims draw = Inr tc"
    and i: "i < numTilings" and j: "j < length dims"
    and di: "fst (rangePair (dims ! j)) < snd (rangePair (dims ! j))" "0 < gridCountIdeal (dims ! j)"
      "generalizationScale (dims ! j) * generalizationScale (dims ! j) \<le> 1"
    and u: "0 \<le> draw i j" "draw i j < 1"
    and x: "fst (rangePair (dims ! j)) \<le> x" "x \<le> snd (rangePair (dims ! j))"
    and fits: "gridCountIdeal (dims ! j) + 1 \<le> 2 ^ sizeBits pf"
  shows "\<exists>g. paramToGridValue pf tc x i j = Inr g \<and> g < gridCountIdeal (dims ! j) + 1"
proof -
  let ?di = "dims ! j"
  let ?lo = "fst (rangePair ?di)" and ?hi = "snd (rangePair ?di)"
  let ?n = "gridCountIdeal ?di" and ?s = "generalizationScale ?di"
  let ?off = "draw i j * (\<bar>?lo - ?hi\<bar> / real ?n) * ?s"
  have fields: "dimensionalInfos tc = dims"
    "randomOffsets tc =
       map (\<lambda>i. map (\<lambda>j. uniform_real_distribution (\<lambda>x. x) 0 1 (draw i j) * GetOffsets (dims ! j)
                                 * getGeneralizationScale (dims ! j)) [0..<length dims])
           [0..<numTilings]"
    using tc by (auto simp: TileCode_init_def TileCode_init_hint_def)
  have row: "vector_at (randomOffsets tc) i =
      Inr (map (\<lambda>j. uniform_real_distribution (\<lambda>x. x) 0 1 (draw i j) * GetOffsets (dims ! j)
                                 * getGeneralizationScale (dims ! j)) [0..<length dims])"
    using i by (simp add: fields(2) vector_at_def)
  have off: "vector_at (map (\<lambda>j. uniform_real_distribution (\<lambda>x. x) 0 1 (draw i j) * GetOffsets (dims ! j)
                                 * getGeneralizationScale (dims ! j)) [0..<length dims]) j = Inr ?off"
    using j by (simp add: vector_at_def uniform_real_distribution_def GetOffsets_def
        GetRangeDifference_def getGeneralizationScale_def)
  have dim: "vector_at (dimensionalInfos tc) j = Inr ?di"
    using j by (simp add: fields(1) vector_at_def)
  have nz: "GetRangeDifference ?di \<noteq> 0" using di(1) by (simp add: GetRangeDifference_def)
  let ?v = "((x + ?off * ?s - ?lo) * real ?n) / \<bar>?lo - ?hi\<bar>"
  have pv: "paramToGridValue pf tc x i j = float_to_size pf ?v"
    unfolding paramToGridValue_def row off dim bind_result_def sum.case Let_def
    using nz by (simp add: getGeneralizationScale_def getLowerBound_def GetGridCountIdeal_def
        GetRangeDifference_def)
  have "0 \<le> ?v"
    by (rule grid_value_bound(1) [OF di(1) di(2) x u di(3)])
  moreover have "?v < real ?n + 1"
    by (rule grid_value_bound(2) [OF di(1) di(2) x u di(3)])
  ultimately have "\<exists>g. float_to_size pf ?v = Inr g \<and> g < ?n + 1"
    using fits by (rule float_to_size_bound)
  then show ?thesis by (simp add: pv)
qed

lemma tilingsLoop_all:
  assumes "\<forall>i \<in> set is. \<exists>h. body i = Inr h \<and> h < bound"
  shows "\<exists>fv. tilingsLoop body is = Inr fv \<and> length fv = length is \<and> (\<forall>h \<in> set fv. h < bound)"
  using assms
proof (induction "is")
  case Nil
  then show ?case by simp
next
  case (Cons i rest)
  obtain h where h: "body i = Inr h" "h < bound" using Cons.prems by auto
  obtain fv where fv: "tilingsLoop body rest = Inr fv" "length fv = length rest"
      "\<forall>h \<in> set fv. h < bound"
    using Cons.IH Cons.prems by auto
  show ?case using h fv by (simp add: bind_result_def)
qed

lemma prod_list_positive:
  fixes xs :: "nat list"
  shows "\<forall>x \<in> set xs. 0 < x \<Longrightarrow> 0 < prod_list xs"
  by (induction xs) simp_all

lemma factor_le_prod_list:
  fixes xs :: "nat list"
  assumes "\<forall>x \<in> set xs. 0 < x" "j < length xs"
  shows "xs ! j \<le> prod_list xs"
  using assms
proof (induction xs arbitrary: j)
  case Nil
  then show ?case by simp
next
  case (Cons a xs)
  have pos: "0 < prod_list xs" using Cons.prems(1) by (intro prod_list_positive) simp
  have a: "0 < a" using Cons.prems(1) by simp
  show ?case
  proof (cases j)
    case 0
    have "a \<le> a * prod_list xs" using pos by simp
    then show ?thesis by (simp add: 0)
  next
    case (Suc k)
    have "xs ! k \<le> prod_list xs" using Cons.prems by (intro Cons.IH) (simp_all add: Suc)
    also have "\<dots> \<le> a * prod_list xs" using a by simp
    finally show ?thesis by (simp add: Suc)
  qed
qed

lemma withinSizeCache_less:
  assumes "h < size0" "size0 < 2 ^ (intBits pf - 1)" "size0 < 2 ^ sizeBits pf"
  shows "withinSizeCache pf h size0"
proof -
  have "h < 2 ^ (intBits pf - 1)" using assms(1,2) by (rule less_trans)
  then have s: "toSigned (intBits pf) h = int h" by (simp add: toSigned_def)
  have "h < 2 ^ sizeBits pf" using assms(1,3) by (rule less_trans)
  then have "int h < 2 ^ sizeBits pf" by (metis of_nat_less_iff of_nat_numeral of_nat_power)
  then have "int h mod 2 ^ sizeBits pf = int h" by simp
  then show ?thesis using assms(1) by (simp add: withinSizeCache_def s)
qed

lemma getFeatureVector_in_range:
  assumes tc: "TileCode_init pf numTilings dims draw = Inr tc"
    and dims: "\<forall>di \<in> set dims. fst (rangePair di) < snd (rangePair di) \<and> 0 < gridCountIdeal di \<and>
                 generalizationScale di * generalizationScale di \<le> 1 \<and>
                 gridCountIdeal di + 1 < 2 ^ intBits pf"
    and fitsI: "numTilings * prod_list (map (GetGridCountReal pf) dims) < 2 ^ (intBits pf - 1)"
    and fitsS: "numTilings * prod_list (map (GetGridCountReal pf) dims) < 2 ^ sizeBits pf"
    and draw: "\<forall>i j. 0 \<le> draw i j \<and> draw i j < 1"
    and len: "length parameters = length dims"
    and x: "\<forall>d < length dims. fst (rangePair (dims ! d)) \<le> parameters ! d \<and>
                 parameters ! d \<le> snd (rangePair (dims ! d))"
  shows "\<exists>fv. getFeatureVector pf tc parameters = Inr fv \<and> length fv = numTilings \<and>
           (\<forall>idx \<in> set fv. idx < TileCode_getSize tc)"
proof -
  let ?P = "prod_list (map (GetGridCountReal pf) dims)"
  have fields: "dimensionalInfos tc = dims" "NUM_TILINGS tc = numTilings"
    "sizeCache tc = calculateSize pf numTilings dims"
    using tc by (auto simp: TileCode_init_def TileCode_init_hint_def)
  have real_count: "GetGridCountReal pf di = gridCountIdeal di + 1" if "di \<in> set dims" for di
    using dims that by (simp add: GetGridCountReal_def wrap_id)
  have factors: "\<forall>r \<in> set (map (GetGridCountReal pf) dims). 0 < r"
    using real_count by auto
  then have pos: "0 < ?P" by (rule prod_list_positive)
  have size: "calculateSize pf numTilings dims = ?P * numTilings"
    using pos fitsS by (rule calculateSize_eq)
  have "(2::nat) ^ (intBits pf - 1) \<le> 2 ^ intBits pf" by (intro power_increasing) simp_all
  with fitsI have fits: "numTilings * ?P < 2 ^ intBits pf" by (rule less_le_trans)
  have sI: "calculateSize pf numTilings dims < 2 ^ (intBits pf - 1)"
    using fitsI by (simp add: size mult.commute)
  have sS: "calculateSize pf numTilings dims < 2 ^ sizeBits pf"
    using fitsS by (simp add: size mult.commute)
  let ?grid = "\<lambda>i j. bind_result (vector_at parameters j) (\<lambda>p. paramToGridValue pf tc p i j)"
  let ?body = "\<lambda>i. bind_result (tilingHashedIndex pf (?grid i) (dimensionalInfos tc) i)
               (\<lambda>hashedIndex. if withinSizeCache pf hashedIndex (sizeCache tc) then Inr hashedIndex
                              else Inl AssertionFailed)"
  have body: "\<exists>h. ?body i = Inr h \<and> h < calculateSize pf numTilings dims" if i: "i < numTilings" for i
  proof -
    have each: "\<exists>g. ?grid i j = Inr g \<and> g < GetGridCountReal pf (dims ! j)" if j: "j < length dims" for j
    proof -
      have mem: "dims ! j \<in> set dims" using j by simp
      then have di: "fst (rangePair (dims ! j)) < snd (rangePair (dims ! j))"
          "0 < gridCountIdeal (dims ! j)"
          "generalizationScale (dims ! j) * generalizationScale (dims ! j) \<le> 1"
        using dims by auto
      have "map (GetGridCountReal pf) dims ! j \<le> ?P"
        using factors j by (intro factor_le_prod_list) simp_all
      then have "GetGridCountReal pf (dims ! j) \<le> ?P" using j by simp
      also have "?P \<le> numTilings * ?P" using i by simp
      finally have "GetGridCountReal pf (dims ! j) \<le> 2 ^ sizeBits pf" using fitsS by simp
      then have fit: "gridCountIdeal (dims ! j) + 1 \<le> 2 ^ sizeBits pf"
        by (simp add: real_count [OF mem])
      have "\<exists>g. paramToGridValue pf tc (parameters ! j) i j = Inr g \<and>
               g < gridCountIdeal (dims ! j) + 1"
        using tc i j di draw x fit by (intro paramToGridValue_bound) auto
      then show ?thesis using j len by (simp add: vector_at_def bind_result_def real_count [OF mem])
    qed
    define gs where "gs = map (\<lambda>j. case ?grid i j of Inr g \<Rightarrow> g | Inl e \<Rightarrow> 0) [0..<length dims]"
    have gl: "length gs = length dims" by (simp add: gs_def)
    have gv: "?grid i d = Inr (gs ! d)" if "d < length dims" for d
      using each [OF that] that by (auto simp: gs_def)
    have gb: "gs ! d < GetGridCountReal pf (dims ! d)" if "d < length dims" for d
      using each [OF that] that by (auto simp: gs_def)
    have wg: "withinGrid pf dims gs" using gl gb by (simp add: withinGrid_iff)
    have gall: "\<forall>d < length dims. ?grid i d = Inr (gs ! d)" using gv by simp
    have idx: "tilingHashedIndex pf (?grid i) dims i = Inr (mixedRadix pf dims gs + ?P * i)"
      using wg gall i fits by (rule tilingHashedIndex_grid_eq)
    have "mixedRadix pf dims gs < ?P" using wg by (rule mixedRadix_less)
    then have "mixedRadix pf dims gs + ?P * i < ?P * numTilings" using i by (rule radix_top_less)
    then have less: "mixedRadix pf dims gs + ?P * i < calculateSize pf numTilings dims"
      by (simp add: size)
    have ok: "withinSizeCache pf (mixedRadix pf dims gs + ?P * i) (calculateSize pf numTilings dims)"
      using less sI sS by (rule withinSizeCache_less)
    show ?thesis unfolding fields idx using less ok by (simp add: bind_result_def)
  qed
  have "\<forall>i \<in> set [0..<numTilings]. \<exists>h. ?body i = Inr h \<and> h < calculateSize pf numTilings dims"
    using body by simp
  then have "\<exists>fv. tilingsLoop ?body [0..<numTilings] = Inr fv \<and> length fv = length [0..<numTilings] \<and>
      (\<forall>h \<in> set fv. h < calculateSize pf numTilings dims)"
    by (rule tilingsLoop_all)
  then show ?thesis by (simp add: getFeatureVector_def fields TileCode_getSize_def)
qed

section \<open>Claims about DimensionInfo and the feature vector\<close>

text \<open>
  Claim C4. The one-dimensional coder built from \<^verbatim>\<open>DimensionInfo(0, 1, 10, 1)\<close> with one
  tiling and every random draw equal to zero, hence every random offset equal to zero, maps
  \<open>0.0\<close> to \<open>[0]\<close>, \<open>1.0\<close> to \<open>[10]\<close> and \<open>0.55\<close> to \<open>[5]\<close>, on every platform whose
  \<^verbatim>\<open>rl::INT\<close> and \<^verbatim>\<open>size_t\<close> have the sixteen bits the language grants them.
\<close>

theorem one_dimensional_scenario:
  assumes "16 \<le> intBits pf" "16 \<le> sizeBits pf"
  shows "bind_result (DimensionInfo_init 0 1 10 1) (\<lambda>di.
     bind_result (TileCode_init pf 1 [di] (\<lambda>i j. 0)) (\<lambda>tc. Inr (randomOffsets tc))) = Inr [[0]] \<and>
   bind_result (DimensionInfo_init 0 1 10 1) (\<lambda>di.
     bind_result (TileCode_init pf 1 [di] (\<lambda>i j. 0)) (\<lambda>tc. getFeatureVector pf tc [0])) = Inr [0] \<and>
   bind_result (DimensionInfo_init 0 1 10 1) (\<lambda>di.
     bind_result (TileCode_init pf 1 [di] (\<lambda>i j. 0)) (\<lambda>tc. getFeatureVector pf tc [1])) = Inr [10] \<and>
   bind_result (DimensionInfo_init 0 1 10 1) (\<lambda>di.
     bind_result (TileCode_init pf 1 [di] (\<lambda>i j. 0)) (\<lambda>tc. getFeatureVector pf tc [55 / 100])) = Inr [5]"
  using assms by (simp add: tile_defs upt_one)

theorem one_dimensional_scenario_witness:
  "bind_result (DimensionInfo_init 0 1 10 1) (\<lambda>di.
     bind_result (TileCode_init \<lparr>intBits = 32, sizeBits = 64\<rparr> 1 [di] (\<lambda>i j. 0)) (\<lambda>tc. Inr (randomOffsets tc))) = Inr [[0]] \<and>
   bind_result (DimensionInfo_init 0 1 10 1) (\<lambda>di.
     bind_result (TileCode_init \<lparr>intBits = 32, sizeBits = 64\<rparr> 1 [di] (\<lambda>i j. 0)) (\<lambda>tc.
       getFeatureVector \<lparr>intBits = 32, sizeBits = 64\<rparr> tc [0])) = Inr [0] \<and>
   bind_result (DimensionInfo_init 0 1 10 1) (\<lambda>di.
     bind_result (TileCode_init \<lparr>intBits = 32, sizeBits = 64\<rparr> 1 [di] (\<lambda>i j. 0)) (\<lambda>tc.
       getFeatureVector \<lparr>intBits = 32, sizeBits = 64\<rparr> tc [1])) = Inr [10] \<and>
   bind_result (DimensionInfo_init 0 1 10 1) (\<lambda>di.
     bind_result (TileCode_init \<lparr>intBits = 32, sizeBits = 64\<rparr> 1 [di] (\<lambda>i j. 0)) (\<lambda>tc.
       getFeatureVector \<lparr>intBits = 32, sizeBits = 64\<rparr> tc [55 / 100])) = Inr [5]"
  by (rule one_dimensional_scenario) simp_all

text \<open>
  With a generalisation scale of \<open>3\<close> every draw of \<open>[1/9, 2/9)\<close> sends the upper bound of
  the range to the grid value \<open>11\<close>, one beyond the last cell.
\<close>

lemma upper_bound_reaches_size_draws:
  assumes "16 \<le> intBits pf" "16 \<le> sizeBits pf" "1 / 9 \<le> u" "u < 2 / 9"
  shows "bind_result (DimensionInfo_init 0 1 10 3) (\<lambda>di.
     bind_result (TileCode_init pf 1 [di] (\<lambda>i j. u)) (\<lambda>tc.
     bind_result (getFeatureVector pf tc [1]) (\<lambda>fv. Inr (fv, TileCode_getSize tc)))) = Inr ([11], 11)"
proof -
  have "\<lfloor>(1 + u * (1 / 10) * 3 * 3 - 0) * 10 / 1\<rfloor> = 11"
    using assms(3,4) by (intro floor_unique) simp_all
  then have fl: "\<lfloor>(1 + u * 9 / 10) * 10\<rfloor> = 11" by simp
  have pos: "- 1 < (1 + u * 9 / 10) * 10" "(1 + u * 9 / 10) * 10 < 65536" using assms(3,4) by simp_all
  show ?thesis using pos fl assms(1,2) by (simp add: tile_defs upt_one)
qed

text \<open>
  Claim C2, at an input where the code leaves it. \<^verbatim>\<open>DimensionInfo(0, 1, 10, 3)\<close> has a
  generalisation scale above one, there is one tiling, and the point is \<open>x = 1.0 = hi\<close>, within
  the bounds. The vector has its one entry, but with the constructor's draw \<open>1/6\<close> it is
  \<open>[11]\<close> while \<^verbatim>\<open>getSize()\<close> is \<open>11\<close>: the \<^verbatim>\<open>assert\<close> compares with \<open>\<le>\<close> and lets the
  index pass. With the draw \<open>1/2\<close> the index is \<open>14\<close> and the \<^verbatim>\<open>assert\<close> fails. This is so on
  every platform whose \<^verbatim>\<open>rl::INT\<close> and \<^verbatim>\<open>size_t\<close> have sixteen bits or more. Lemma
  \<open>getFeatureVector_in_range\<close> above covers the coders on which the claim does hold.
\<close>

theorem feature_index_reaches_size:
  assumes "16 \<le> intBits pf" "16 \<le> sizeBits pf"
  shows "bind_result (DimensionInfo_init 0 1 10 3) (\<lambda>di.
     bind_result (TileCode_init pf 1 [di] (\<lambda>i j. 1 / 6)) (\<lambda>tc.
     bind_result (getFeatureVector pf tc [1]) (\<lambda>fv. Inr (fv, TileCode_getSize tc)))) = Inr ([11], 11) \<and>
   bind_result (DimensionInfo_init 0 1 10 3) (\<lambda>di.
     bind_result (TileCode_init pf 1 [di] (\<lambda>i j. 1 / 2)) (\<lambda>tc.
       tilingHashedIndex pf (\<lambda>j. bind_result (vector_at [1] j) (\<lambda>p. paramToGridValue pf tc p 0 j))
         (dimensionalInfos tc) 0)) = Inr 14 \<and>
   bind_result (DimensionInfo_init 0 1 10 3) (\<lambda>di.
     bind_result (TileCode_init pf 1 [di] (\<lambda>i j. 1 / 2)) (\<lambda>tc. getFeatureVector pf tc [1])) =
     Inl AssertionFailed"
  using assms by (simp add: tile_defs upt_one)

theorem feature_index_reaches_size_witness:
  "bind_result (DimensionInfo_init 0 1 10 3) (\<lambda>di.
     bind_result (TileCode_init \<lparr>intBits = 32, sizeBits = 64\<rparr> 1 [di] (\<lambda>i j. 1 / 6)) (\<lambda>tc.
     bind_result (getFeatureVector \<lparr>intBits = 32, sizeBits = 64\<rparr> tc [1]) (\<lambda>fv.
       Inr (fv, TileCode_getSize tc)))) = Inr ([11], 11) \<and>
   bind_result (DimensionInfo_init 0 1 10 3) (\<lambda>di.
     bind_result (TileCode_init \<lparr>intBits = 32, sizeBits = 64\<rparr> 1 [di] (\<lambda>i j. 1 / 2)) (\<lambda>tc.
       tilingHashedIndex \<lparr>intBits = 32, sizeBits = 64\<rparr>
         (\<lambda>j. bind_result (vector_at [1] j) (\<lambda>p.
            paramToGridValue \<lparr>intBits = 32, sizeBits = 64\<rparr> tc p 0 j))
         (dimensionalInfos tc) 0)) = Inr 14 \<and>
   bind_result (DimensionInfo_init 0 1 10 3) (\<lambda>di.
     bind_result (TileCode_init \<lparr>intBits = 32, sizeBits = 64\<rparr> 1 [di] (\<lambda>i j. 1 / 2)) (\<lambda>tc.
       getFeatureVector \<lparr>intBits = 32, sizeBits = 64\<rparr> tc [1])) = Inl AssertionFailed"
  by (rule feature_index_reaches_size) simp_all

text \<open>
  Claim C8 as stated fails: a \<^verbatim>\<open>DimensionInfo\<close> with grid count \<open>0\<close> and \<open>hi < lo\<close>, and a
  \<^verbatim>\<open>StateActionTransition\<close> with greediness \<open>2\<close> and step size \<open>-3\<close>, are constructed without
  an error.
\<close>

theorem construction_raises_counterexample:
  "DimensionInfo_init 1 0 0 1 \<noteq> Inl InvalidConfig \<and>
   DimensionInfo_init3 1 0 0 \<noteq> Inl InvalidConfig \<and>
   (StateActionTransition_init 2 (- 3) :: error + nat StateActionTransition) \<noteq> Inl InvalidConfig"
  by (simp add: DimensionInfo_init_def DimensionInfo_init3_def StateActionTransition_init_def)

text \<open>
  Claim C8, amended. The constructors of \<^verbatim>\<open>DimensionInfo\<close> and of \<^verbatim>\<open>StateActionTransition\<close>
  validate nothing: for all arguments they return an object that stores the arguments as
  given (the three-argument constructor stores the generalisation scale \<open>1\<close>, the model starts
  with both maps empty), and no error is raised at construction.
\<close>

theorem construction_stores_arguments:
  "DimensionInfo_init lo hi n gs =
     Inr \<lparr>rangePair = (lo, hi), gridCountIdeal = n, generalizationScale = gs\<rparr> \<and>
   DimensionInfo_init3 lo hi n =
     Inr \<lparr>rangePair = (lo, hi), gridCountIdeal = n, generalizationScale = 1\<rparr> \<and>
   StateActionTransition_init g b =
     Inr \<lparr>stateActionTransitionFrequency = [], stateActionTransitionReward = [],
          greedy = g, stepSize = b\<rparr>"
  by (simp add: DimensionInfo_init_def DimensionInfo_init3_def StateActionTransition_init_def)

end
